theory Spec2Isabelle
  imports Complex_Main "HOL-Library.Char_ord" "HOL-Library.List_Lexorder"
begin

section \<open>The translation graph of argostranslate/translate.py\<close>

text \<open>
  A shallow embedding of \<^verbatim>\<open>src/argostranslate/translate.py\<close>.

  Conventions of the embedding.
  \<^item> A Python \<^verbatim>\<open>str\<close> is a \<open>string\<close> holding its UTF-8 bytes. Byte-wise
    lexicographic order on UTF-8 is the order of the code points, which is the order
    Python's \<^verbatim>\<open>sort\<close> uses on \<^verbatim>\<open>str\<close>.
  \<^item> A score is a \<open>real\<close>: the exact number that the Python \<^verbatim>\<open>int\<close> or
    \<^verbatim>\<open>float\<close> denotes; rounding of \<^verbatim>\<open>float\<close> addition is not modelled.
  \<^item> \<^verbatim>\<open>num_hypotheses\<close> is a \<open>nat\<close>.
  \<^item> An exception is a value \<open>Inl e\<close> of a sum type.
  \<^item> A \<^verbatim>\<open>Language\<close> object is created once per code (the dictionary
    \<^verbatim>\<open>language_of_code\<close>), so a reference to a \<^verbatim>\<open>Language\<close> is its code, and the
    objects live in a store: the list of the \<open>Language\<close> records in the order of their
    creation. An edge holds the codes of its two languages; appending to the
    \<^verbatim>\<open>translations_from\<close> or \<^verbatim>\<open>translations_to\<close> list of an object
    updates the record of that code in the store.
  \<^item> What the imported modules compute (the package list, the sentence chunker, the
    tokenizer, the CTranslate2 translator, the remote API, the few-shot language model)
    is a parameter of the model.
\<close>

subsection \<open>Data\<close>

datatype error = IndexError | UnboundLocalError | NameError

text \<open>\<^verbatim>\<open>class Hypothesis\<close>: the fields \<^verbatim>\<open>value\<close> and \<^verbatim>\<open>score\<close>.\<close>

record Hypothesis =
  hvalue :: string
  score :: real

text \<open>
  \<^verbatim>\<open>Hypothesis.__lt__\<close> compares the scores only. It is the comparison
  \<^verbatim>\<open>list.sort\<close> uses.
\<close>

definition Hypothesis_lt :: "Hypothesis \<Rightarrow> Hypothesis \<Rightarrow> bool" where
  "Hypothesis_lt self other = (score self < score other)"

text \<open>The fields of \<^verbatim>\<open>package.Package\<close> that translate.py reads.\<close>

record Package =
  package_path :: string
  pkg_type :: string
  from_code :: string
  from_name :: string
  to_code :: string
  to_name :: string

text \<open>
  The classes derived from \<^verbatim>\<open>ITranslation\<close>. The attributes \<^verbatim>\<open>from_lang\<close> and
  \<^verbatim>\<open>to_lang\<close> are set by each \<^verbatim>\<open>__init__\<close>; for a \<^verbatim>\<open>CompositeTranslation\<close>
  they are \<^verbatim>\<open>t1.from_lang\<close> and \<^verbatim>\<open>t2.to_lang\<close>.
\<close>

datatype ITranslation =
    PackageTranslation string string Package
  | IdentityTranslation string
  | CompositeTranslation ITranslation ITranslation
  | RemoteTranslation string string
  | FewShotTranslation string string

fun from_lang :: "ITranslation \<Rightarrow> string" where
  "from_lang (PackageTranslation f t pkg) = f"
| "from_lang (IdentityTranslation lang) = lang"
| "from_lang (CompositeTranslation t1 t2) = from_lang t1"
| "from_lang (RemoteTranslation f t) = f"
| "from_lang (FewShotTranslation f t) = f"

fun to_lang :: "ITranslation \<Rightarrow> string" where
  "to_lang (PackageTranslation f t pkg) = t"
| "to_lang (IdentityTranslation lang) = lang"
| "to_lang (CompositeTranslation t1 t2) = to_lang t2"
| "to_lang (RemoteTranslation f t) = t"
| "to_lang (FewShotTranslation f t) = t"

record Language =
  code :: string
  name :: string
  translations_from :: "ITranslation list"
  translations_to :: "ITranslation list"

text \<open>\<^verbatim>\<open>Language.__init__\<close>.\<close>

definition new_Language :: "string \<Rightarrow> string \<Rightarrow> Language" where
  "new_Language c n = \<lparr>code = c, name = n, translations_from = [], translations_to = []\<rparr>"

subsection \<open>The store of Language objects\<close>

definition codes :: "Language list \<Rightarrow> string list" where
  "codes s = map code s"

text \<open>
  Following a reference. In Python a reference is always to an object that exists, and
  so it is in the graphs the builder returns (lemma \<open>graph_refs_closed\<close> below); for
  a code that is not in the store the model returns a language with no edges.
\<close>

definition deref :: "Language list \<Rightarrow> string \<Rightarrow> Language" where
  "deref s c = (case find (\<lambda>l. code l = c) s of Some l \<Rightarrow> l | None \<Rightarrow> new_Language c [])"

text \<open>\<^verbatim>\<open>lang.translations_from.append(t)\<close> and \<^verbatim>\<open>lang.translations_to.append(t)\<close>.\<close>

definition append_translations_from :: "Language list \<Rightarrow> string \<Rightarrow> ITranslation \<Rightarrow> Language list" where
  "append_translations_from s c t =
     map (\<lambda>l. if code l = c then l\<lparr>translations_from := translations_from l @ [t]\<rparr> else l) s"

definition append_translations_to :: "Language list \<Rightarrow> string \<Rightarrow> ITranslation \<Rightarrow> Language list" where
  "append_translations_to s c t =
     map (\<lambda>l. if code l = c then l\<lparr>translations_to := translations_to l @ [t]\<rparr> else l) s"

text \<open>
  \<^verbatim>\<open>Language.get_translation(self, to)\<close>. The test \<^verbatim>\<open>x.to_lang.code == to.code\<close>
  reads the code of the language that \<^verbatim>\<open>x.to_lang\<close> refers to, which is the
  reference itself.
\<close>

definition get_translation :: "Language \<Rightarrow> Language \<Rightarrow> ITranslation option" where
  "get_translation self to =
     (let valid_translations = filter (\<lambda>x. to_lang x = code to) (translations_from self)
      in if length valid_translations > 0 then Some (valid_translations ! 0) else None)"

subsection \<open>Hypotheses\<close>

text \<open>The functions of the imported modules that the \<^verbatim>\<open>hypotheses\<close> methods call.\<close>

record externals =
  chunk :: "string \<Rightarrow> string list"
  sp_encode :: "Package \<Rightarrow> string \<Rightarrow> string list"
  translate_batch :: "Package \<Rightarrow> string list list \<Rightarrow> nat \<Rightarrow> nat \<Rightarrow> (string list \<times> real) list list"
  api_translate :: "string \<Rightarrow> string \<Rightarrow> string \<Rightarrow> string"
  generate_prompt :: "string \<Rightarrow> string \<Rightarrow> string \<Rightarrow> string \<Rightarrow> string \<Rightarrow> string"
  infer :: "string \<Rightarrow> string"
  parse_inference :: "string \<Rightarrow> string"

text \<open>\<^verbatim>\<open>IdentityTranslation.hypotheses\<close>.\<close>

definition IdentityTranslation_hypotheses :: "string \<Rightarrow> nat \<Rightarrow> Hypothesis list" where
  "IdentityTranslation_hypotheses input_text num_hypotheses =
     map (\<lambda>i. \<lparr>hvalue = input_text, score = 0\<rparr>) [0..<num_hypotheses]"

text \<open>
  \<^verbatim>\<open>CompositeTranslation.hypotheses\<close>. The two sub-edges are objects of any class of
  \<^verbatim>\<open>ITranslation\<close>: the method is modelled over their \<^verbatim>\<open>hypotheses\<close> methods
  \<open>h1\<close> and \<open>h2\<close>. \<open>combine\<close> is the pair of nested \<^verbatim>\<open>for\<close> loops;
  \<^verbatim>\<open>to_return.sort()\<close> is Python's stable sort with \<^verbatim>\<open>__lt__\<close>, ascending by
  score, which \<open>sort_key score\<close> is; \<^verbatim>\<open>to_return[0:num_hypotheses]\<close> is \<open>take\<close>.
\<close>

fun combine :: "(string \<Rightarrow> nat \<Rightarrow> error + Hypothesis list) \<Rightarrow> nat \<Rightarrow> Hypothesis list
    \<Rightarrow> Hypothesis list \<Rightarrow> error + Hypothesis list" where
  "combine h2 num_hypotheses [] to_return = Inr to_return"
| "combine h2 num_hypotheses (t1_hypothesis # rest) to_return =
     (case h2 (hvalue t1_hypothesis) num_hypotheses of
        Inl e \<Rightarrow> Inl e
      | Inr t2_hypotheses \<Rightarrow>
          combine h2 num_hypotheses rest
            (to_return @
             map (\<lambda>t2_hypothesis.
                    \<lparr>hvalue = hvalue t2_hypothesis,
                     score = score t1_hypothesis + score t2_hypothesis\<rparr>)
                 t2_hypotheses))"

definition CompositeTranslation_hypotheses ::
  "(string \<Rightarrow> nat \<Rightarrow> error + Hypothesis list) \<Rightarrow> (string \<Rightarrow> nat \<Rightarrow> error + Hypothesis list)
    \<Rightarrow> string \<Rightarrow> nat \<Rightarrow> error + Hypothesis list" where
  "CompositeTranslation_hypotheses h1 h2 input_text num_hypotheses =
     (case h1 input_text num_hypotheses of
        Inl e \<Rightarrow> Inl e
      | Inr t1_hypotheses \<Rightarrow>
          (case combine h2 num_hypotheses t1_hypotheses [] of
             Inl e \<Rightarrow> Inl e
           | Inr to_return \<Rightarrow> Inr (take num_hypotheses (sort_key score to_return))))"

text \<open>
  \<^verbatim>\<open>FewShotTranslation.hypotheses\<close>. The local variable \<^verbatim>\<open>to_return\<close> has no
  binding before the loop: it is \<open>None\<close> until something is assigned to it, and
  reading it then raises \<^verbatim>\<open>UnboundLocalError\<close>. \<^verbatim>\<open>to_return += result\<close> reads
  it first.
\<close>

fun fewshot_loop :: "externals \<Rightarrow> string \<Rightarrow> string \<Rightarrow> string \<Rightarrow> string \<Rightarrow> string list
    \<Rightarrow> string option \<Rightarrow> error + string option" where
  "fewshot_loop ext fname fcode tname tcode [] to_return = Inr to_return"
| "fewshot_loop ext fname fcode tname tcode (sentence # sentences) to_return =
     (let prompt = generate_prompt ext sentence fname fcode tname tcode;
          response = infer ext prompt;
          result = parse_inference ext response
      in case to_return of
           None \<Rightarrow> Inl UnboundLocalError
         | Some r \<Rightarrow> fewshot_loop ext fname fcode tname tcode sentences (Some (r @ result)))"

definition FewShotTranslation_hypotheses :: "externals \<Rightarrow> string \<Rightarrow> string \<Rightarrow> string \<Rightarrow> string
    \<Rightarrow> string \<Rightarrow> nat \<Rightarrow> error + Hypothesis list" where
  "FewShotTranslation_hypotheses ext fname fcode tname tcode input_text num_hypotheses =
     (let sentences = chunk ext input_text
      in case fewshot_loop ext fname fcode tname tcode sentences None of
           Inl e \<Rightarrow> Inl e
         | Inr None \<Rightarrow> Inl UnboundLocalError
         | Inr (Some to_return) \<Rightarrow>
             Inr (replicate num_hypotheses \<lparr>hvalue = to_return, score = 0\<rparr>))"

text \<open>\<^verbatim>\<open>RemoteTranslation.hypotheses\<close>.\<close>

definition RemoteTranslation_hypotheses :: "externals \<Rightarrow> string \<Rightarrow> string \<Rightarrow> string \<Rightarrow> nat
    \<Rightarrow> Hypothesis list" where
  "RemoteTranslation_hypotheses ext fcode tcode input_text num_hypotheses =
     (let result = api_translate ext input_text fcode tcode
      in replicate num_hypotheses \<lparr>hvalue = result, score = 0\<rparr>)"

text \<open>
  \<^verbatim>\<open>apply_packaged_translation\<close>. \<open>word_boundary\<close> is the UTF-8 encoding of
  U+2581, the mark the tokenizer puts at the start of a word. An entry of
  \<^verbatim>\<open>translated_batches\<close> is the list of the hypotheses for one sentence, each a
  pair of its tokens and its score; \<^verbatim>\<open>translated_batch[i]\<close> raises
  \<^verbatim>\<open>IndexError\<close> when the translator returned fewer than \<open>i + 1\<close> of them.
\<close>

definition word_boundary :: string where
  "word_boundary = [char_of (0xE2 :: nat), char_of (0x96 :: nat), char_of (0x81 :: nat)]"

function str_replace :: "string \<Rightarrow> string \<Rightarrow> string \<Rightarrow> string" where
  "str_replace old new s =
     (if old = [] \<or> s = [] then s
      else if take (length old) s = old then new @ str_replace old new (drop (length old) s)
      else hd s # str_replace old new (tl s))"
  by pat_completeness auto
termination
  by (relation "measure (\<lambda>(old, new, s). length s)") (auto simp: neq_Nil_conv)

fun accumulate :: "(string list \<times> real) list list \<Rightarrow> nat \<Rightarrow> string list \<Rightarrow> real
    \<Rightarrow> error + (string list \<times> real)" where
  "accumulate [] i translated_tokens cumulative_score = Inr (translated_tokens, cumulative_score)"
| "accumulate (translated_batch # rest) i translated_tokens cumulative_score =
     (if i < length translated_batch
      then accumulate rest i (translated_tokens @ fst (translated_batch ! i))
             (cumulative_score + snd (translated_batch ! i))
      else Inl IndexError)"

fun build_hypotheses :: "(string list \<times> real) list list \<Rightarrow> nat list \<Rightarrow> Hypothesis list
    \<Rightarrow> error + Hypothesis list" where
  "build_hypotheses translated_batches [] value_hypotheses = Inr value_hypotheses"
| "build_hypotheses translated_batches (i # is) value_hypotheses =
     (case accumulate translated_batches i [] 0 of
        Inl e \<Rightarrow> Inl e
      | Inr (translated_tokens, cumulative_score) \<Rightarrow>
          (let detokenized = str_replace word_boundary '' '' (concat translated_tokens);
               v = (if length detokenized > 0 \<and> detokenized ! 0 = CHR '' ''
                    then drop 1 detokenized else detokenized)
           in build_hypotheses translated_batches is
                (value_hypotheses @ [\<lparr>hvalue = v, score = cumulative_score\<rparr>])))"

definition apply_packaged_translation :: "externals \<Rightarrow> Package \<Rightarrow> string \<Rightarrow> nat
    \<Rightarrow> error + Hypothesis list" where
  "apply_packaged_translation ext pkg input_text num_hypotheses =
     (let sentences = chunk ext input_text;
          tokenized = map (sp_encode ext pkg) sentences;
          translated_batches =
            translate_batch ext pkg tokenized (max num_hypotheses 4) num_hypotheses
      in build_hypotheses translated_batches [0..<num_hypotheses] [])"

text \<open>
  The method \<^verbatim>\<open>hypotheses\<close> of an edge, by its class. \<open>g\<close> is the store the
  edge's languages live in (\<^verbatim>\<open>self.from_lang.name\<close> is read from it). The
  translator that \<^verbatim>\<open>PackageTranslation.hypotheses\<close> loads on its first call and
  keeps is part of \<open>translate_batch\<close>.
\<close>

fun hypotheses :: "externals \<Rightarrow> Language list \<Rightarrow> ITranslation \<Rightarrow> string \<Rightarrow> nat
    \<Rightarrow> error + Hypothesis list" where
  "hypotheses ext g (PackageTranslation f t pkg) input_text num_hypotheses =
     apply_packaged_translation ext pkg input_text num_hypotheses"
| "hypotheses ext g (IdentityTranslation lang) input_text num_hypotheses =
     Inr (IdentityTranslation_hypotheses input_text num_hypotheses)"
| "hypotheses ext g (CompositeTranslation t1 t2) input_text num_hypotheses =
     CompositeTranslation_hypotheses (hypotheses ext g t1) (hypotheses ext g t2)
       input_text num_hypotheses"
| "hypotheses ext g (RemoteTranslation f t) input_text num_hypotheses =
     Inr (RemoteTranslation_hypotheses ext f t input_text num_hypotheses)"
| "hypotheses ext g (FewShotTranslation f t) input_text num_hypotheses =
     FewShotTranslation_hypotheses ext (name (deref g f)) f (name (deref g t)) t
       input_text num_hypotheses"

text \<open>\<^verbatim>\<open>ITranslation.translate\<close>: the value of the first of one hypothesis.\<close>

definition translate :: "externals \<Rightarrow> Language list \<Rightarrow> ITranslation \<Rightarrow> string \<Rightarrow> error + string" where
  "translate ext g t input_text =
     (case hypotheses ext g t input_text 1 of
        Inl e \<Rightarrow> Inl e
      | Inr [] \<Rightarrow> Inl IndexError
      | Inr (h # hs) \<Rightarrow> Inr (hvalue h))"

subsection \<open>The graph builder\<close>

text \<open>
  \<^verbatim>\<open>settings.ModelProvider\<close>, and what \<^verbatim>\<open>get_installed_languages\<close> reads from
  outside: the setting \<^verbatim>\<open>settings.model_provider\<close>, the list
  \<^verbatim>\<open>package.get_installed_packages()\<close>, and the pairs of code and name of
  \<^verbatim>\<open>libretranslate_api.languages()\<close>.
\<close>

datatype ModelProvider = OPENNMT | LIBRETRANSLATE | OPENAI

record installation =
  model_provider :: ModelProvider
  installed_packages :: "Package list"
  supported_languages :: "(string \<times> string) list"

text \<open>
  Loading the packages. \<open>ensure_language\<close> is
  \<^verbatim>\<open>if code not in language_of_code: language_of_code[code] = Language(code, name)\<close>;
  \<open>add_translation\<close> is the pair
  \<^verbatim>\<open>from_lang.translations_from.append(t)\<close>, \<^verbatim>\<open>to_lang.translations_to.append(t)\<close>;
  \<open>load_package\<close> is the body of \<^verbatim>\<open>for pkg in packages\<close>.
\<close>

definition ensure_language :: "Language list \<Rightarrow> string \<Rightarrow> string \<Rightarrow> Language list" where
  "ensure_language s c n = (if c \<notin> set (codes s) then s @ [new_Language c n] else s)"

definition add_translation :: "Language list \<Rightarrow> ITranslation \<Rightarrow> Language list" where
  "add_translation s t =
     append_translations_to (append_translations_from s (from_lang t) t) (to_lang t) t"

definition load_package :: "Package \<Rightarrow> Language list \<Rightarrow> Language list" where
  "load_package pkg s =
     add_translation
       (ensure_language (ensure_language s (from_code pkg) (from_name pkg))
          (to_code pkg) (to_name pkg))
       (PackageTranslation (from_code pkg) (to_code pkg) pkg)"

text \<open>The loop that adds an \<^verbatim>\<open>IdentityTranslation\<close> to every language.\<close>

definition add_identity_translations :: "Language list \<Rightarrow> Language list" where
  "add_identity_translations s = fold (\<lambda>c s. add_translation s (IdentityTranslation c)) (codes s) s"

text \<open>
  The pivot step. \<open>pivot_body\<close> is the body of the innermost loop: the test
  \<^verbatim>\<open>language.get_translation(translation_2.to_lang) is None\<close> and, when it holds,
  \<^verbatim>\<open>keep_adding_translations = True\<close> and the two \<^verbatim>\<open>append\<close>s of the new
  \<^verbatim>\<open>CompositeTranslation\<close>. The state is the store and
  \<^verbatim>\<open>keep_adding_translations\<close>.
\<close>

definition pivot_body :: "string \<Rightarrow> ITranslation \<Rightarrow> ITranslation \<Rightarrow> Language list \<times> bool
    \<Rightarrow> Language list \<times> bool" where
  "pivot_body language translation translation_2 st =
     (if get_translation (deref (fst st) language) (deref (fst st) (to_lang translation_2)) = None
      then (append_translations_to
              (append_translations_from (fst st) language
                 (CompositeTranslation translation translation_2))
              (to_lang translation_2) (CompositeTranslation translation translation_2),
            True)
      else st)"

text \<open>
  For the termination of the loops: the destinations of the edges of a language, the
  destinations of all the edges of the store, and the number of the latter that the
  language has no edge to. An \<^verbatim>\<open>append\<close> of the pivot step lowers that number.
\<close>

definition dests :: "Language list \<Rightarrow> string \<Rightarrow> string set" where
  "dests s c = to_lang ` set (translations_from (deref s c))"

definition all_dests :: "Language list \<Rightarrow> string set" where
  "all_dests s = (\<Union>l \<in> set s. to_lang ` set (translations_from l))"

definition missing :: "Language list \<Rightarrow> string \<Rightarrow> nat" where
  "missing s c = card (all_dests s - dests s c)"

lemma codes_append_from [simp]: "codes (append_translations_from s c t) = codes s"
  by (simp add: codes_def append_translations_from_def comp_def)

lemma codes_append_to [simp]: "codes (append_translations_to s c t) = codes s"
  by (simp add: codes_def append_translations_to_def comp_def)

lemma code_deref [simp]: "code (deref s c) = c"
  by (auto simp: deref_def new_Language_def split: option.splits dest: find_Some_iff[THEN iffD1])

lemma deref_in_set: "c \<in> set (codes s) \<Longrightarrow> deref s c \<in> set s"
  by (induction s) (auto simp: deref_def codes_def)

lemma deref_notin: "c \<notin> set (codes s) \<Longrightarrow> deref s c = new_Language c []"
  by (induction s) (auto simp: deref_def codes_def)

lemma deref_map:
  assumes "\<And>l. code (f l) = code l"
  shows "deref (map f s) c = (if c \<in> set (codes s) then f (deref s c) else new_Language c [])"
  using assms by (induction s) (auto simp: deref_def codes_def)

lemma from_append_from:
  "translations_from (deref (append_translations_from s c t) c') =
     (if c' = c \<and> c \<in> set (codes s) then translations_from (deref s c) @ [t]
      else translations_from (deref s c'))"
  unfolding append_translations_from_def
  by (subst deref_map) (auto simp: deref_notin new_Language_def)

lemma from_append_to [simp]:
  "translations_from (deref (append_translations_to s c t) c') = translations_from (deref s c')"
  unfolding append_translations_to_def
  by (subst deref_map) (auto simp: deref_notin new_Language_def)

lemma append_from_notin: "c \<notin> set (codes s) \<Longrightarrow> append_translations_from s c t = s"
  by (induction s) (auto simp: append_translations_from_def codes_def)

lemma all_dests_Nil [simp]: "all_dests [] = {}"
  by (simp add: all_dests_def)

lemma all_dests_Cons [simp]:
  "all_dests (l # s) = to_lang ` set (translations_from l) \<union> all_dests s"
  by (simp add: all_dests_def)

lemma all_dests_append_to [simp]: "all_dests (append_translations_to s c t) = all_dests s"
  by (induction s) (simp_all add: append_translations_to_def)

lemma all_dests_append_from_if:
  "all_dests (append_translations_from s c t) =
     (if c \<in> set (codes s) then insert (to_lang t) (all_dests s) else all_dests s)"
proof (induction s)
  case Nil
  then show ?case by (simp add: append_translations_from_def codes_def)
next
  case (Cons l s)
  have "append_translations_from (l # s) c t =
      (if code l = c then l\<lparr>translations_from := translations_from l @ [t]\<rparr> else l)
        # append_translations_from s c t"
    by (simp add: append_translations_from_def)
  then show ?case using Cons by (auto simp: codes_def)
qed

lemma all_dests_append_from:
  "c \<in> set (codes s) \<Longrightarrow> all_dests (append_translations_from s c t) = insert (to_lang t) (all_dests s)"
  by (simp add: all_dests_append_from_if)

lemma finite_all_dests [simp]: "finite (all_dests s)"
  by (simp add: all_dests_def)

lemma dests_subset: "dests s c \<subseteq> all_dests s"
proof (cases "c \<in> set (codes s)")
  case True
  then show ?thesis using deref_in_set[OF True] by (auto simp: dests_def all_dests_def)
next
  case False
  then show ?thesis by (simp add: dests_def deref_notin new_Language_def)
qed

lemma get_translation_None:
  "get_translation l to = None \<longleftrightarrow> code to \<notin> to_lang ` set (translations_from l)"
  by (force simp: get_translation_def Let_def filter_empty_conv)

lemma deref_nonempty_in_codes:
  "j < length (translations_from (deref s c)) \<Longrightarrow> c \<in> set (codes s)"
  by (rule ccontr) (simp add: deref_notin new_Language_def)

lemma dests_append_to [simp]: "dests (append_translations_to s c t) c' = dests s c'"
  by (simp add: dests_def)

lemma dests_append_from:
  "c \<in> set (codes s) \<Longrightarrow> dests (append_translations_from s c t) c = insert (to_lang t) (dests s c)"
  by (simp add: dests_def from_append_from)

lemma missing_append:
  assumes "L \<in> set (codes s)" and "to_lang c \<in> all_dests s" and "to_lang c \<notin> dests s L"
  shows "missing (append_translations_to (append_translations_from s L c) d c) L < missing s L"
proof -
  have "all_dests s - insert (to_lang c) (dests s L) \<subset> all_dests s - dests s L"
    using assms(2,3) by auto
  then have "card (all_dests s - insert (to_lang c) (dests s L)) < card (all_dests s - dests s L)"
    by (intro psubset_card_mono) simp_all
  moreover have "insert (to_lang c) (all_dests s) = all_dests s"
    using assms(2) by auto
  ultimately show ?thesis
    using assms(1) by (simp add: missing_def all_dests_append_from dests_append_from)
qed

lemma nth_dest_in_all_dests:
  assumes "j < length (translations_from (deref s M))"
  shows "to_lang (translations_from (deref s M) ! j) \<in> all_dests s"
proof -
  have "M \<in> set (codes s)" using assms by (rule deref_nonempty_in_codes)
  then have "deref s M \<in> set s" by (rule deref_in_set)
  moreover have "translations_from (deref s M) ! j \<in> set (translations_from (deref s M))"
    using assms by simp
  ultimately show ?thesis unfolding all_dests_def by blast
qed

definition step_ok :: "string \<Rightarrow> Language list \<times> bool \<Rightarrow> Language list \<times> bool \<Rightarrow> bool" where
  "step_ok L st st' \<longleftrightarrow>
     codes (fst st') = codes (fst st) \<and>
     (st' = st \<or> (snd st' \<and> missing (fst st') L < missing (fst st) L))"

lemma step_ok_refl [simp]: "step_ok L st st"
  by (simp add: step_ok_def)

lemma step_ok_trans: "step_ok L a b \<Longrightarrow> step_ok L b c \<Longrightarrow> step_ok L a c"
  by (auto simp: step_ok_def)

lemma pivot_body_ok:
  assumes "L \<in> set (codes (fst st))" and "to_lang t2 \<in> all_dests (fst st)"
  shows "step_ok L st (pivot_body L t t2 st)"
proof (cases "get_translation (deref (fst st) L) (deref (fst st) (to_lang t2)) = None")
  case True
  let ?c = "CompositeTranslation t t2"
  let ?s' = "append_translations_to (append_translations_from (fst st) L ?c) (to_lang t2) ?c"
  have "to_lang ?c \<notin> dests (fst st) L"
    using True by (simp add: get_translation_None dests_def)
  moreover have "to_lang ?c \<in> all_dests (fst st)"
    using assms(2) by simp
  ultimately have "missing ?s' L < missing (fst st) L"
    using assms(1) by (intro missing_append)
  moreover have "pivot_body L t t2 st = (?s', True)"
    using True by (simp add: pivot_body_def)
  ultimately show ?thesis by (simp add: step_ok_def)
next
  case False
  then have "pivot_body L t t2 st = st" unfolding pivot_body_def by (rule if_not_P)
  then show ?thesis by simp
qed

lemma pivot_body_notin:
  assumes "L \<notin> set (codes (fst st))"
  shows "translations_from (deref (fst (pivot_body L t t2 st)) c) = translations_from (deref (fst st) c)"
    and "missing (fst (pivot_body L t t2 st)) L = missing (fst st) L"
  using assms by (simp_all add: pivot_body_def append_from_notin missing_def)

text \<open>
  \<^verbatim>\<open>for translation_2 in translation.to_lang.translations_from\<close>. A Python
  \<^verbatim>\<open>for\<close> over a list keeps an index and reads the list at each step, so it sees the
  elements appended to the list while it runs (here, when \<^verbatim>\<open>translation.to_lang\<close>
  is \<^verbatim>\<open>language\<close>): \<open>j\<close> is the index, and the list is read from the current
  store.
\<close>

function pivot_inner :: "string \<Rightarrow> ITranslation \<Rightarrow> nat \<Rightarrow> Language list \<times> bool
    \<Rightarrow> Language list \<times> bool" where
  "pivot_inner language translation j st =
     (if j < length (translations_from (deref (fst st) (to_lang translation)))
      then pivot_inner language translation (Suc j)
             (pivot_body language translation
                (translations_from (deref (fst st) (to_lang translation)) ! j) st)
      else st)"
  by pat_completeness auto
termination
proof (relation "inv_image (less_than <*lex*> less_than)
    (\<lambda>(language, translation, j, st).
        (missing (fst st) language,
         length (translations_from (deref (fst st) (to_lang translation))) - j))")
  show "wf (inv_image (less_than <*lex*> less_than)
    (\<lambda>(language, translation, j, st).
        (missing (fst st) language,
         length (translations_from (deref (fst st) (to_lang translation))) - j)))"
    by (intro wf_inv_image wf_lex_prod wf_less_than)
next
  fix language translation j and st :: "Language list \<times> bool"
  let ?t2 = "translations_from (deref (fst st) (to_lang translation)) ! j"
  assume j: "j < length (translations_from (deref (fst st) (to_lang translation)))"
  show "((language, translation, Suc j, pivot_body language translation ?t2 st),
         (language, translation, j, st))
        \<in> inv_image (less_than <*lex*> less_than)
            (\<lambda>(language, translation, j, st).
                (missing (fst st) language,
                 length (translations_from (deref (fst st) (to_lang translation))) - j))"
  proof (cases "language \<in> set (codes (fst st))")
    case True
    have "step_ok language st (pivot_body language translation ?t2 st)"
      using True nth_dest_in_all_dests[OF j] by (rule pivot_body_ok)
    then show ?thesis using j by (auto simp: step_ok_def)
  next
    case False
    then show ?thesis using j by (simp add: pivot_body_notin)
  qed
qed

declare pivot_inner.simps [simp del]

lemma pivot_inner_ok:
  "language \<in> set (codes (fst st)) \<Longrightarrow> step_ok language st (pivot_inner language translation j st)"
proof (induction language translation j st rule: pivot_inner.induct)
  case (1 language translation j st)
  let ?t2 = "translations_from (deref (fst st) (to_lang translation)) ! j"
  show ?case
  proof (cases "j < length (translations_from (deref (fst st) (to_lang translation)))")
    case True
    have b: "step_ok language st (pivot_body language translation ?t2 st)"
      using "1.prems" nth_dest_in_all_dests[OF True] by (rule pivot_body_ok)
    then have "language \<in> set (codes (fst (pivot_body language translation ?t2 st)))"
      using "1.prems" by (simp add: step_ok_def)
    then have "step_ok language (pivot_body language translation ?t2 st)
        (pivot_inner language translation (Suc j) (pivot_body language translation ?t2 st))"
      using "1.IH" True by simp
    with b show ?thesis
      using True by (subst pivot_inner.simps) (auto intro: step_ok_trans)
  next
    case False
    then show ?thesis by (subst pivot_inner.simps) simp
  qed
qed

text \<open>
  \<^verbatim>\<open>for translation in language.translations_from\<close>, over the list that the loop
  body appends to.
\<close>

function pivot_for :: "string \<Rightarrow> nat \<Rightarrow> Language list \<times> bool \<Rightarrow> Language list \<times> bool" where
  "pivot_for language i st =
     (if i < length (translations_from (deref (fst st) language))
      then pivot_for language (Suc i)
             (pivot_inner language (translations_from (deref (fst st) language) ! i) 0 st)
      else st)"
  by pat_completeness auto
termination
proof (relation "inv_image (less_than <*lex*> less_than)
    (\<lambda>(language, i, st).
        (missing (fst st) language, length (translations_from (deref (fst st) language)) - i))")
  show "wf (inv_image (less_than <*lex*> less_than)
    (\<lambda>(language, i, st).
        (missing (fst st) language, length (translations_from (deref (fst st) language)) - i)))"
    by (intro wf_inv_image wf_lex_prod wf_less_than)
next
  fix language i and st :: "Language list \<times> bool"
  let ?t = "translations_from (deref (fst st) language) ! i"
  assume i: "i < length (translations_from (deref (fst st) language))"
  then have "language \<in> set (codes (fst st))" by (rule deref_nonempty_in_codes)
  then have "step_ok language st (pivot_inner language ?t 0 st)" by (rule pivot_inner_ok)
  then show "((language, Suc i, pivot_inner language ?t 0 st), (language, i, st))
        \<in> inv_image (less_than <*lex*> less_than)
            (\<lambda>(language, i, st).
                (missing (fst st) language,
                 length (translations_from (deref (fst st) language)) - i))"
    using i by (auto simp: step_ok_def)
qed

declare pivot_for.simps [simp del]

lemma pivot_for_ok: "step_ok language st (pivot_for language i st)"
proof (induction language i st rule: pivot_for.induct)
  case (1 language i st)
  let ?t = "translations_from (deref (fst st) language) ! i"
  show ?case
  proof (cases "i < length (translations_from (deref (fst st) language))")
    case True
    then have "language \<in> set (codes (fst st))" by (rule deref_nonempty_in_codes)
    then have "step_ok language st (pivot_inner language ?t 0 st)" by (rule pivot_inner_ok)
    moreover have "step_ok language (pivot_inner language ?t 0 st)
        (pivot_for language (Suc i) (pivot_inner language ?t 0 st))"
      using "1.IH" True by simp
    ultimately show ?thesis
      using True by (subst pivot_for.simps) (auto intro: step_ok_trans)
  next
    case False
    then show ?thesis by (subst pivot_for.simps) simp
  qed
qed

text \<open>
  \<^verbatim>\<open>while keep_adding_translations\<close>: a pass with \<^verbatim>\<open>keep_adding_translations\<close>
  reset to false, repeated while the pass sets it.
\<close>

function pivot_while :: "string \<Rightarrow> Language list \<Rightarrow> Language list" where
  "pivot_while language s =
     (if snd (pivot_for language 0 (s, False))
      then pivot_while language (fst (pivot_for language 0 (s, False)))
      else fst (pivot_for language 0 (s, False)))"
  by pat_completeness auto
termination
proof (relation "measure (\<lambda>(language, s). missing s language)")
  show "wf (measure (\<lambda>(language, s). missing s language))" by simp
next
  fix language and s :: "Language list"
  assume "snd (pivot_for language 0 (s, False))"
  moreover have "step_ok language (s, False) (pivot_for language 0 (s, False))"
    by (rule pivot_for_ok)
  ultimately show "((language, fst (pivot_for language 0 (s, False))), (language, s))
      \<in> measure (\<lambda>(language, s). missing s language)"
    by (auto simp: step_ok_def)
qed

declare pivot_while.simps [simp del]

text \<open>\<^verbatim>\<open>for language in languages\<close>, over the languages in the order of their creation.\<close>

definition pivot_languages :: "Language list \<Rightarrow> Language list" where
  "pivot_languages s = fold pivot_while (codes s) s"

text \<open>
  The branch of \<^verbatim>\<open>get_installed_languages\<close> for \<^verbatim>\<open>ModelProvider.OPENNMT\<close>: the
  packages of type \<^verbatim>\<open>translate\<close> are loaded, the identity edges are added, then the
  pivot step runs.
\<close>

definition translate_packages :: "Package list \<Rightarrow> Package list" where
  "translate_packages packages = filter (\<lambda>x. pkg_type x = ''translate'') packages"

definition opennmt_languages :: "Package list \<Rightarrow> Language list" where
  "opennmt_languages packages =
     pivot_languages
       (add_identity_translations (fold load_package (translate_packages packages) []))"

text \<open>
  The branch for \<^verbatim>\<open>ModelProvider.OPENAI\<close>: two languages and a
  \<^verbatim>\<open>FewShotTranslation\<close> for each of the four pairs.
\<close>

definition openai_languages :: "Language list" where
  "openai_languages =
     (let languages = [new_Language ''en'' ''English'', new_Language ''es'' ''Spanish'']
      in fold (\<lambda>f s. fold (\<lambda>t s. add_translation s (FewShotTranslation f t)) (codes languages) s)
           (codes languages) languages)"

text \<open>
  The end of \<^verbatim>\<open>get_installed_languages\<close>: the first language with code \<open>en\<close> is
  taken out of the list (\<^verbatim>\<open>languages.pop(en_index)\<close>), the rest is sorted by name
  (a stable sort, as \<open>sort_key\<close> is) and the language taken out is put in front.
\<close>

definition english_first :: "Language list \<Rightarrow> Language list" where
  "english_first languages =
     (case find (\<lambda>language. code language = ''en'') languages of
        None \<Rightarrow> sort_key name languages
      | Some english \<Rightarrow>
          english # sort_key name
            (takeWhile (\<lambda>language. code language \<noteq> ''en'') languages @
             tl (dropWhile (\<lambda>language. code language \<noteq> ''en'') languages)))"

text \<open>
  \<^verbatim>\<open>get_installed_languages\<close>. In the branch for
  \<^verbatim>\<open>ModelProvider.LIBRETRANSLATE\<close> the body of the loops over the languages names
  \<^verbatim>\<open>LibreTranslateTranslation\<close>, which translate.py neither defines nor imports:
  the first iteration raises \<^verbatim>\<open>NameError\<close>, and the branch returns only when the
  remote API lists no language.
\<close>

definition get_installed_languages :: "installation \<Rightarrow> error + Language list" where
  "get_installed_languages inst =
     (case model_provider inst of
        OPENNMT \<Rightarrow> Inr (english_first (opennmt_languages (installed_packages inst)))
      | LIBRETRANSLATE \<Rightarrow>
          (let languages = map (\<lambda>(c, n). new_Language c n) (supported_languages inst)
           in if languages = [] then Inr (english_first languages) else Inl NameError)
      | OPENAI \<Rightarrow> Inr (english_first openai_languages))"

text \<open>
  \<^verbatim>\<open>get_language_from_code\<close> and \<^verbatim>\<open>get_translation_from_codes\<close>. Each call of
  \<^verbatim>\<open>get_language_from_code\<close> builds the graph again; \<^verbatim>\<open>[0]\<close> of an empty list
  raises \<^verbatim>\<open>IndexError\<close>.
\<close>

definition get_language_from_code :: "installation \<Rightarrow> string \<Rightarrow> error + Language" where
  "get_language_from_code inst c =
     (case get_installed_languages inst of
        Inl e \<Rightarrow> Inl e
      | Inr languages \<Rightarrow>
          (case filter (\<lambda>x. code x = c) languages of
             [] \<Rightarrow> Inl IndexError
           | language # rest \<Rightarrow> Inr language))"

definition get_translation_from_codes :: "installation \<Rightarrow> string \<Rightarrow> string
    \<Rightarrow> error + ITranslation option" where
  "get_translation_from_codes inst fcode tcode =
     (case get_language_from_code inst fcode of
        Inl e \<Rightarrow> Inl e
      | Inr from_language \<Rightarrow>
          (case get_language_from_code inst tcode of
             Inl e \<Rightarrow> Inl e
           | Inr to_language \<Rightarrow> Inr (get_translation from_language to_language)))"

section \<open>Lemmas about the builder\<close>

subsection \<open>The edges after loading the packages and adding the identity edges\<close>

lemma deref_append:
  "deref (s @ s') c = (if c \<in> set (codes s) then deref s c else deref s' c)"
  by (induction s) (auto simp: deref_def codes_def)

lemma deref_singleton:
  "translations_from (deref [new_Language c n] c') = []"
  by (simp add: deref_def new_Language_def)

lemma from_ensure [simp]:
  "translations_from (deref (ensure_language s c n) c') = translations_from (deref s c')"
proof (cases "c' \<in> set (codes s)")
  case True
  then show ?thesis by (simp add: ensure_language_def deref_append)
next
  case False
  then have "translations_from (deref s c') = []"
    by (simp add: deref_notin new_Language_def)
  with False show ?thesis
    by (simp add: ensure_language_def deref_append deref_singleton)
qed

lemma codes_ensure:
  "codes (ensure_language s c n) = (if c \<in> set (codes s) then codes s else codes s @ [c])"
  by (simp add: ensure_language_def codes_def new_Language_def)

lemma set_codes_ensure [simp]: "set (codes (ensure_language s c n)) = insert c (set (codes s))"
  by (auto simp: codes_ensure)

lemma distinct_ensure [simp]:
  "distinct (codes (ensure_language s c n)) = distinct (codes s)"
  by (simp add: codes_ensure)

lemma codes_add_translation [simp]: "codes (add_translation s t) = codes s"
  by (simp add: add_translation_def)

lemma from_add_translation:
  "translations_from (deref (add_translation s t) c) =
     (if c = from_lang t \<and> c \<in> set (codes s) then translations_from (deref s c) @ [t]
      else translations_from (deref s c))"
  by (auto simp: add_translation_def from_append_from)

lemma set_codes_load_package [simp]:
  "set (codes (load_package p s)) = insert (from_code p) (insert (to_code p) (set (codes s)))"
  by (auto simp: load_package_def)

lemma distinct_load_package [simp]:
  "distinct (codes (load_package p s)) = distinct (codes s)"
  by (simp add: load_package_def)

lemma from_load_package:
  "translations_from (deref (load_package p s) c) =
     translations_from (deref s c) @
       (if from_code p = c then [PackageTranslation (from_code p) (to_code p) p] else [])"
  by (auto simp: load_package_def from_add_translation)

definition package_edges :: "Package list \<Rightarrow> string \<Rightarrow> ITranslation list" where
  "package_edges ps c =
     map (\<lambda>p. PackageTranslation (from_code p) (to_code p) p) (filter (\<lambda>p. from_code p = c) ps)"

lemma fold_load_package:
  "translations_from (deref (fold load_package ps s) c) =
     translations_from (deref s c) @ package_edges ps c"
  by (induction ps arbitrary: s) (auto simp: from_load_package package_edges_def)

lemma set_codes_fold_load:
  "set (codes (fold load_package ps s)) = set (codes s) \<union> from_code ` set ps \<union> to_code ` set ps"
  by (induction ps arbitrary: s) auto

lemma distinct_fold_load:
  "distinct (codes (fold load_package ps s)) = distinct (codes s)"
  by (induction ps arbitrary: s) auto

lemma codes_fold_identity [simp]:
  "codes (fold (\<lambda>c s. add_translation s (IdentityTranslation c)) cs s) = codes s"
  by (induction cs arbitrary: s) auto

lemma from_fold_identity:
  "distinct cs \<Longrightarrow>
   translations_from (deref (fold (\<lambda>c s. add_translation s (IdentityTranslation c)) cs s) c) =
     translations_from (deref s c) @
       (if c \<in> set cs \<and> c \<in> set (codes s) then [IdentityTranslation c] else [])"
  by (induction cs arbitrary: s) (auto simp: from_add_translation)

lemma codes_add_identity [simp]: "codes (add_identity_translations s) = codes s"
  by (simp add: add_identity_translations_def)

lemma from_add_identity:
  "distinct (codes s) \<Longrightarrow>
   translations_from (deref (add_identity_translations s) c) =
     translations_from (deref s c) @ (if c \<in> set (codes s) then [IdentityTranslation c] else [])"
  by (simp add: add_identity_translations_def from_fold_identity)

subsection \<open>What the pivot step appends\<close>

definition own_edges :: "Language list \<Rightarrow> string \<Rightarrow> bool" where
  "own_edges s L \<longleftrightarrow> (\<forall>e \<in> set (translations_from (deref s L)). from_lang e = L)"

definition grows :: "string \<Rightarrow> Language list \<Rightarrow> Language list \<Rightarrow> bool" where
  "grows L s s' \<longleftrightarrow>
     codes s' = codes s \<and> all_dests s' = all_dests s \<and>
     (\<forall>c. c \<noteq> L \<longrightarrow> translations_from (deref s' c) = translations_from (deref s c)) \<and>
     (\<exists>new. translations_from (deref s' L) = translations_from (deref s L) @ new \<and>
        distinct (map to_lang new) \<and> to_lang ` set new \<inter> dests s L = {} \<and>
        to_lang ` set new \<subseteq> all_dests s \<and>
        (own_edges s L \<longrightarrow> (\<forall>e \<in> set new. from_lang e = L)))"

lemma grows_refl [simp]: "grows L s s"
  by (simp add: grows_def)

lemma growsI:
  assumes "codes s' = codes s" and "all_dests s' = all_dests s"
    and "\<forall>c. c \<noteq> L \<longrightarrow> translations_from (deref s' c) = translations_from (deref s c)"
    and "translations_from (deref s' L) = translations_from (deref s L) @ new"
    and "distinct (map to_lang new)" and "to_lang ` set new \<inter> dests s L = {}"
    and "to_lang ` set new \<subseteq> all_dests s"
    and "own_edges s L \<longrightarrow> (\<forall>e \<in> set new. from_lang e = L)"
  shows "grows L s s'"
  unfolding grows_def
  by (intro conjI exI[of _ new]) (fact assms)+

lemma distinct_dests_append:
  assumes "distinct (map to_lang n1)" and "distinct (map to_lang n2)"
    and "to_lang ` set n2 \<inter> (D \<union> to_lang ` set n1) = {}"
  shows "distinct (map to_lang (n1 @ n2))"
proof -
  have "to_lang ` set n1 \<inter> to_lang ` set n2 = {}"
    using assms(3) by blast
  then show ?thesis using assms(1,2) by simp
qed

lemma grows_trans:
  assumes "grows L a b" and "grows L b c"
  shows "grows L a c"
proof -
  have ab: "codes b = codes a" "all_dests b = all_dests a"
    "\<forall>x. x \<noteq> L \<longrightarrow> translations_from (deref b x) = translations_from (deref a x)"
    using assms(1) by (simp_all add: grows_def)
  have bc: "codes c = codes b" "all_dests c = all_dests b"
    "\<forall>x. x \<noteq> L \<longrightarrow> translations_from (deref c x) = translations_from (deref b x)"
    using assms(2) by (simp_all add: grows_def)
  have "\<exists>new. translations_from (deref b L) = translations_from (deref a L) @ new \<and>
        distinct (map to_lang new) \<and> to_lang ` set new \<inter> dests a L = {} \<and>
        to_lang ` set new \<subseteq> all_dests a \<and>
        (own_edges a L \<longrightarrow> (\<forall>e \<in> set new. from_lang e = L))"
    using assms(1) unfolding grows_def by (elim conjE)
  then obtain n1 where n1:
    "translations_from (deref b L) = translations_from (deref a L) @ n1"
    "distinct (map to_lang n1)" "to_lang ` set n1 \<inter> dests a L = {}"
    "to_lang ` set n1 \<subseteq> all_dests a"
    "own_edges a L \<longrightarrow> (\<forall>e \<in> set n1. from_lang e = L)"
    by (elim exE conjE)
  have "\<exists>new. translations_from (deref c L) = translations_from (deref b L) @ new \<and>
        distinct (map to_lang new) \<and> to_lang ` set new \<inter> dests b L = {} \<and>
        to_lang ` set new \<subseteq> all_dests b \<and>
        (own_edges b L \<longrightarrow> (\<forall>e \<in> set new. from_lang e = L))"
    using assms(2) unfolding grows_def by (elim conjE)
  then obtain n2 where n2:
    "translations_from (deref c L) = translations_from (deref b L) @ n2"
    "distinct (map to_lang n2)" "to_lang ` set n2 \<inter> dests b L = {}"
    "to_lang ` set n2 \<subseteq> all_dests b"
    "own_edges b L \<longrightarrow> (\<forall>e \<in> set n2. from_lang e = L)"
    by (elim exE conjE)
  have db: "dests b L = dests a L \<union> to_lang ` set n1"
    unfolding dests_def n1(1) by (simp add: image_Un)
  have n23: "to_lang ` set n2 \<inter> (dests a L \<union> to_lang ` set n1) = {}"
    using n2(3) unfolding db .
  show ?thesis
  proof (rule growsI[where new = "n1 @ n2"])
    show "codes c = codes a" using ab(1) bc(1) by simp
    show "all_dests c = all_dests a" using ab(2) bc(2) by simp
    show "\<forall>x. x \<noteq> L \<longrightarrow> translations_from (deref c x) = translations_from (deref a x)"
      using ab(3) bc(3) by simp
    show "translations_from (deref c L) = translations_from (deref a L) @ n1 @ n2"
      unfolding n2(1) n1(1) by simp
    show "distinct (map to_lang (n1 @ n2))"
      using n1(2) n2(2) n23 by (rule distinct_dests_append)
    show "to_lang ` set (n1 @ n2) \<inter> dests a L = {}"
      using n1(3) n23 by (simp add: image_Un) blast
    show "to_lang ` set (n1 @ n2) \<subseteq> all_dests a"
      using n1(4) n2(4) unfolding ab(2) by (simp add: image_Un)
    show "own_edges a L \<longrightarrow> (\<forall>e \<in> set (n1 @ n2). from_lang e = L)"
    proof
      assume own: "own_edges a L"
      then have 1: "\<forall>e \<in> set n1. from_lang e = L" using n1(5) by simp
      with own have "own_edges b L" unfolding own_edges_def n1(1) by auto
      then have "\<forall>e \<in> set n2. from_lang e = L" using n2(5) by simp
      with 1 show "\<forall>e \<in> set (n1 @ n2). from_lang e = L" by auto
    qed
  qed
qed

lemma pivot_body_grows:
  assumes "own_edges (fst st) L \<longrightarrow> from_lang t = L" and "to_lang t2 \<in> all_dests (fst st)"
  shows "grows L (fst st) (fst (pivot_body L t t2 st))"
proof (cases "get_translation (deref (fst st) L) (deref (fst st) (to_lang t2)) = None")
  case True
  let ?c = "CompositeTranslation t t2"
  let ?s' = "append_translations_to (append_translations_from (fst st) L ?c) (to_lang t2) ?c"
  have body: "fst (pivot_body L t t2 st) = ?s'"
    using True by (simp add: pivot_body_def)
  have notin: "to_lang t2 \<notin> dests (fst st) L"
    using True by (simp add: get_translation_None dests_def)
  show ?thesis
  proof (cases "L \<in> set (codes (fst st))")
    case True
    show ?thesis
      unfolding body
    proof (rule growsI[where new = "[?c]"])
      show "codes ?s' = codes (fst st)" by simp
      show "all_dests ?s' = all_dests (fst st)"
        using True assms(2) by (simp add: all_dests_append_from insert_absorb)
      show "\<forall>c. c \<noteq> L \<longrightarrow>
          translations_from (deref ?s' c) = translations_from (deref (fst st) c)"
        by (simp add: from_append_from)
      show "translations_from (deref ?s' L) = translations_from (deref (fst st) L) @ [?c]"
        using True by (simp add: from_append_from)
      show "distinct (map to_lang [?c])" by simp
      show "to_lang ` set [?c] \<inter> dests (fst st) L = {}" using notin by simp
      show "to_lang ` set [?c] \<subseteq> all_dests (fst st)" using assms(2) by simp
      show "own_edges (fst st) L \<longrightarrow> (\<forall>e \<in> set [?c]. from_lang e = L)"
        using assms(1) by simp
    qed
  next
    case False
    then have "?s' = append_translations_to (fst st) (to_lang t2) ?c"
      by (simp add: append_from_notin)
    then have "grows L (fst st) ?s'"
      unfolding grows_def by simp
    then show ?thesis unfolding body .
  qed
next
  case False
  then have "pivot_body L t t2 st = st" unfolding pivot_body_def by (rule if_not_P)
  then show ?thesis by simp
qed

lemma grows_own_back:
  assumes "grows L s s'" and "own_edges s' L"
  shows "own_edges s L"
proof -
  from assms(1) obtain new where
    "translations_from (deref s' L) = translations_from (deref s L) @ new"
    unfolding grows_def by (elim conjE exE)
  then show ?thesis using assms(2) by (auto simp: own_edges_def)
qed

lemma grows_own_edges:
  assumes "grows L s s'" and "own_edges s L"
  shows "own_edges s' L"
proof -
  from assms(1) obtain new where
    "translations_from (deref s' L) = translations_from (deref s L) @ new"
    "own_edges s L \<longrightarrow> (\<forall>e \<in> set new. from_lang e = L)"
    unfolding grows_def by (elim conjE exE)
  then show ?thesis using assms(2) by (auto simp: own_edges_def)
qed

lemma pivot_inner_grows:
  "own_edges (fst st) L \<longrightarrow> from_lang t = L \<Longrightarrow>
   grows L (fst st) (fst (pivot_inner L t j st))"
proof (induction L t j st rule: pivot_inner.induct)
  case (1 L t j st)
  let ?t2 = "translations_from (deref (fst st) (to_lang t)) ! j"
  show ?case
  proof (cases "j < length (translations_from (deref (fst st) (to_lang t)))")
    case True
    have a: "grows L (fst st) (fst (pivot_body L t ?t2 st))"
      using "1.prems" nth_dest_in_all_dests[OF True] by (rule pivot_body_grows)
    have "own_edges (fst (pivot_body L t ?t2 st)) L \<longrightarrow> from_lang t = L"
      using "1.prems" grows_own_back[OF a] by blast
    with True have b: "grows L (fst (pivot_body L t ?t2 st))
        (fst (pivot_inner L t (Suc j) (pivot_body L t ?t2 st)))"
      by (rule "1.IH")
    have eq: "pivot_inner L t j st = pivot_inner L t (Suc j) (pivot_body L t ?t2 st)"
      using True by (subst pivot_inner.simps) simp
    show ?thesis unfolding eq using a b by (rule grows_trans)
  next
    case False
    then have "pivot_inner L t j st = st" by (subst pivot_inner.simps) simp
    then show ?thesis by simp
  qed
qed

lemma pivot_for_grows: "grows L (fst st) (fst (pivot_for L i st))"
proof (induction L i st rule: pivot_for.induct)
  case (1 L i st)
  let ?t = "translations_from (deref (fst st) L) ! i"
  show ?case
  proof (cases "i < length (translations_from (deref (fst st) L))")
    case True
    then have "own_edges (fst st) L \<longrightarrow> from_lang ?t = L" by (simp add: own_edges_def)
    then have a: "grows L (fst st) (fst (pivot_inner L ?t 0 st))" by (rule pivot_inner_grows)
    have b: "grows L (fst (pivot_inner L ?t 0 st))
        (fst (pivot_for L (Suc i) (pivot_inner L ?t 0 st)))"
      using True by (rule "1.IH")
    have eq: "pivot_for L i st = pivot_for L (Suc i) (pivot_inner L ?t 0 st)"
      using True by (subst pivot_for.simps) simp
    show ?thesis unfolding eq using a b by (rule grows_trans)
  next
    case False
    then have "pivot_for L i st = st" by (subst pivot_for.simps) simp
    then show ?thesis by simp
  qed
qed

lemma pivot_while_grows: "grows L s (pivot_while L s)"
proof (induction L s rule: pivot_while.induct)
  case (1 L s)
  let ?p = "pivot_for L 0 (s, False)"
  have a: "grows L s (fst ?p)"
    using pivot_for_grows[of L "(s, False)" 0] by simp
  show ?case
  proof (cases "snd ?p")
    case True
    then have b: "grows L (fst ?p) (pivot_while L (fst ?p))"
      by (rule "1.IH")
    have eq: "pivot_while L s = pivot_while L (fst ?p)"
      using True by (subst pivot_while.simps) simp
    show ?thesis unfolding eq using a b by (rule grows_trans)
  next
    case False
    then have "pivot_while L s = fst ?p" by (subst pivot_while.simps) simp
    then show ?thesis using a by simp
  qed
qed

subsection \<open>A pass that adds nothing\<close>

lemma pivot_body_keep: "snd st \<Longrightarrow> snd (pivot_body L t t2 st)"
  by (simp add: pivot_body_def)

lemma pivot_inner_keep: "snd st \<Longrightarrow> snd (pivot_inner L t j st)"
proof (induction L t j st rule: pivot_inner.induct)
  case (1 L t j st)
  show ?case
  proof (cases "j < length (translations_from (deref (fst st) (to_lang t)))")
    case True
    then show ?thesis
      using "1.IH" "1.prems" by (subst pivot_inner.simps) (simp add: pivot_body_keep)
  next
    case False
    then show ?thesis using "1.prems" by (subst pivot_inner.simps) simp
  qed
qed

lemma pivot_for_keep: "snd st \<Longrightarrow> snd (pivot_for L i st)"
proof (induction L i st rule: pivot_for.induct)
  case (1 L i st)
  show ?case
  proof (cases "i < length (translations_from (deref (fst st) L))")
    case True
    then show ?thesis
      using "1.IH" "1.prems" by (subst pivot_for.simps) (simp add: pivot_inner_keep)
  next
    case False
    then show ?thesis using "1.prems" by (subst pivot_for.simps) simp
  qed
qed

lemma pivot_body_fix:
  assumes "\<not> snd (pivot_body L t t2 st)"
  shows "pivot_body L t t2 st = st" and "to_lang t2 \<in> dests (fst st) L"
proof -
  have n: "get_translation (deref (fst st) L) (deref (fst st) (to_lang t2)) \<noteq> None"
  proof
    assume "get_translation (deref (fst st) L) (deref (fst st) (to_lang t2)) = None"
    then have "snd (pivot_body L t t2 st)" by (simp add: pivot_body_def)
    with assms show False by contradiction
  qed
  then show "pivot_body L t t2 st = st" unfolding pivot_body_def by (rule if_not_P)
  show "to_lang t2 \<in> dests (fst st) L"
    using n by (simp add: get_translation_None dests_def)
qed

lemma pivot_inner_fix:
  "\<not> snd (pivot_inner L t j st) \<Longrightarrow>
   pivot_inner L t j st = st \<and>
   (\<forall>k. j \<le> k \<and> k < length (translations_from (deref (fst st) (to_lang t))) \<longrightarrow>
      to_lang (translations_from (deref (fst st) (to_lang t)) ! k) \<in> dests (fst st) L)"
proof (induction L t j st rule: pivot_inner.induct)
  case (1 L t j st)
  let ?ts = "translations_from (deref (fst st) (to_lang t))"
  show ?case
  proof (cases "j < length ?ts")
    case True
    have eq: "pivot_inner L t j st = pivot_inner L t (Suc j) (pivot_body L t (?ts ! j) st)"
      using True by (subst pivot_inner.simps) simp
    have nk: "\<not> snd (pivot_inner L t (Suc j) (pivot_body L t (?ts ! j) st))"
      using "1.prems" unfolding eq .
    then have "\<not> snd (pivot_body L t (?ts ! j) st)"
      using pivot_inner_keep by blast
    then have b: "pivot_body L t (?ts ! j) st = st" "to_lang (?ts ! j) \<in> dests (fst st) L"
      by (rule pivot_body_fix)+
    have ih: "pivot_inner L t (Suc j) st = st \<and>
        (\<forall>k. Suc j \<le> k \<and> k < length ?ts \<longrightarrow> to_lang (?ts ! k) \<in> dests (fst st) L)"
      using "1.IH"[OF True nk] unfolding b(1) .
    have "\<forall>k. j \<le> k \<and> k < length ?ts \<longrightarrow> to_lang (?ts ! k) \<in> dests (fst st) L"
    proof (intro allI impI)
      fix k assume k: "j \<le> k \<and> k < length ?ts"
      show "to_lang (?ts ! k) \<in> dests (fst st) L"
      proof (cases "k = j")
        case True
        then show ?thesis using b(2) by simp
      next
        case False
        then have "Suc j \<le> k \<and> k < length ?ts" using k by simp
        then show ?thesis using ih by blast
      qed
    qed
    moreover have "pivot_inner L t j st = st"
      unfolding eq b(1) using ih by simp
    ultimately show ?thesis by simp
  next
    case False
    then have "pivot_inner L t j st = st" by (subst pivot_inner.simps) simp
    then show ?thesis using False by auto
  qed
qed

lemma pivot_for_fix:
  "\<not> snd (pivot_for L i st) \<Longrightarrow>
   pivot_for L i st = st \<and>
   (\<forall>k. i \<le> k \<and> k < length (translations_from (deref (fst st) L)) \<longrightarrow>
      (\<forall>t2 \<in> set (translations_from
           (deref (fst st) (to_lang (translations_from (deref (fst st) L) ! k)))).
         to_lang t2 \<in> dests (fst st) L))"
proof (induction L i st rule: pivot_for.induct)
  case (1 L i st)
  let ?ts = "translations_from (deref (fst st) L)"
  show ?case
  proof (cases "i < length ?ts")
    case True
    have eq: "pivot_for L i st = pivot_for L (Suc i) (pivot_inner L (?ts ! i) 0 st)"
      using True by (subst pivot_for.simps) simp
    have nk: "\<not> snd (pivot_for L (Suc i) (pivot_inner L (?ts ! i) 0 st))"
      using "1.prems" unfolding eq .
    then have "\<not> snd (pivot_inner L (?ts ! i) 0 st)"
      using pivot_for_keep by blast
    then have b: "pivot_inner L (?ts ! i) 0 st = st \<and>
        (\<forall>k. 0 \<le> k \<and> k < length (translations_from (deref (fst st) (to_lang (?ts ! i)))) \<longrightarrow>
          to_lang (translations_from (deref (fst st) (to_lang (?ts ! i))) ! k) \<in> dests (fst st) L)"
      by (rule pivot_inner_fix)
    then have b1: "pivot_inner L (?ts ! i) 0 st = st" by simp
    have b2: "\<forall>t2 \<in> set (translations_from (deref (fst st) (to_lang (?ts ! i)))).
        to_lang t2 \<in> dests (fst st) L"
      using b by (auto simp: in_set_conv_nth)
    have ih: "pivot_for L (Suc i) st = st \<and>
        (\<forall>k. Suc i \<le> k \<and> k < length ?ts \<longrightarrow>
          (\<forall>t2 \<in> set (translations_from (deref (fst st) (to_lang (?ts ! k)))).
             to_lang t2 \<in> dests (fst st) L))"
      using "1.IH"[OF True nk] unfolding b1 .
    have "\<forall>k. i \<le> k \<and> k < length ?ts \<longrightarrow>
          (\<forall>t2 \<in> set (translations_from (deref (fst st) (to_lang (?ts ! k)))).
             to_lang t2 \<in> dests (fst st) L)"
    proof (intro allI impI)
      fix k assume k: "i \<le> k \<and> k < length ?ts"
      show "\<forall>t2 \<in> set (translations_from (deref (fst st) (to_lang (?ts ! k)))).
             to_lang t2 \<in> dests (fst st) L"
      proof (cases "k = i")
        case True
        then show ?thesis using b2 by simp
      next
        case False
        then have "Suc i \<le> k \<and> k < length ?ts" using k by simp
        then show ?thesis using ih by blast
      qed
    qed
    moreover have "pivot_for L i st = st"
      unfolding eq b1 using ih by simp
    ultimately show ?thesis by simp
  next
    case False
    then have "pivot_for L i st = st" by (subst pivot_for.simps) simp
    then show ?thesis using False by auto
  qed
qed

definition closed_for :: "Language list \<Rightarrow> string \<Rightarrow> bool" where
  "closed_for s L \<longleftrightarrow>
     (\<forall>t \<in> set (translations_from (deref s L)).
        \<forall>t2 \<in> set (translations_from (deref s (to_lang t))). to_lang t2 \<in> dests s L)"

lemma pivot_while_closed: "closed_for (pivot_while L s) L"
proof (induction L s rule: pivot_while.induct)
  case (1 L s)
  let ?p = "pivot_for L 0 (s, False)"
  show ?case
  proof (cases "snd ?p")
    case True
    have eq: "pivot_while L s = pivot_while L (fst ?p)"
      using True by (subst pivot_while.simps) simp
    show ?thesis unfolding eq using True by (rule "1.IH")
  next
    case False
    then have eq: "pivot_while L s = fst ?p" by (subst pivot_while.simps) simp
    have fp: "?p = (s, False) \<and>
      (\<forall>k. 0 \<le> k \<and> k < length (translations_from (deref (fst (s, False)) L)) \<longrightarrow>
        (\<forall>t2 \<in> set (translations_from
           (deref (fst (s, False)) (to_lang (translations_from (deref (fst (s, False)) L) ! k)))).
         to_lang t2 \<in> dests (fst (s, False)) L))"
      using False by (rule pivot_for_fix)
    then have "pivot_while L s = s" using eq by simp
    moreover have "closed_for s L"
      unfolding closed_for_def
    proof (intro ballI)
      fix t t2
      assume t: "t \<in> set (translations_from (deref s L))"
        and t2: "t2 \<in> set (translations_from (deref s (to_lang t)))"
      from t obtain k where k: "k < length (translations_from (deref s L))"
        "translations_from (deref s L) ! k = t"
        by (auto simp: in_set_conv_nth)
      from fp k(1) have "\<forall>t2 \<in> set (translations_from
           (deref s (to_lang (translations_from (deref s L) ! k)))). to_lang t2 \<in> dests s L"
        by simp
      then show "to_lang t2 \<in> dests s L" using t2 unfolding k(2) by blast
    qed
    ultimately show ?thesis by simp
  qed
qed

subsection \<open>The loop over the languages\<close>

definition all_own :: "Language list \<Rightarrow> bool" where
  "all_own s \<longleftrightarrow> (\<forall>c. own_edges s c)"

definition settled :: "Language list \<Rightarrow> Language list \<Rightarrow> string \<Rightarrow> bool" where
  "settled s s' c \<longleftrightarrow>
     (\<exists>new. translations_from (deref s' c) = translations_from (deref s c) @ new \<and>
        distinct (map to_lang new) \<and> to_lang ` set new \<inter> dests s c = {} \<and>
        (\<forall>e \<in> set new. from_lang e = c)) \<and>
     (\<forall>t \<in> set (translations_from (deref s' c)).
        \<forall>t2 \<in> set (translations_from (deref s (to_lang t))). to_lang t2 \<in> dests s' c)"

lemma grows_frame:
  "grows L s s' \<Longrightarrow> c \<noteq> L \<Longrightarrow> translations_from (deref s' c) = translations_from (deref s c)"
  by (simp add: grows_def)

lemma grows_codes: "grows L s s' \<Longrightarrow> codes s' = codes s"
  by (simp add: grows_def)

lemma grows_all_dests: "grows L s s' \<Longrightarrow> all_dests s' = all_dests s"
  by (simp add: grows_def)

lemma grows_subset:
  assumes "grows L s s'"
  shows "set (translations_from (deref s M)) \<subseteq> set (translations_from (deref s' M))"
proof (cases "M = L")
  case True
  from assms obtain new where
    "translations_from (deref s' L) = translations_from (deref s L) @ new"
    unfolding grows_def by (elim conjE exE)
  then show ?thesis using True by simp
next
  case False
  then show ?thesis using grows_frame[OF assms] by simp
qed

lemma grows_all_own:
  assumes "grows L s s'" and "all_own s"
  shows "all_own s'"
  unfolding all_own_def
proof
  fix c
  show "own_edges s' c"
  proof (cases "c = L")
    case True
    then show ?thesis using grows_own_edges[OF assms(1)] assms(2) by (simp add: all_own_def)
  next
    case False
    then show ?thesis
      using assms(2) grows_frame[OF assms(1) False] by (simp add: all_own_def own_edges_def)
  qed
qed

lemma grows_settled:
  assumes "grows L s s'" and "closed_for s' L" and "own_edges s L"
  shows "settled s s' L"
proof -
  from assms(1) obtain new where new0:
    "translations_from (deref s' L) = translations_from (deref s L) @ new"
    "distinct (map to_lang new)" "to_lang ` set new \<inter> dests s L = {}"
    "own_edges s L \<longrightarrow> (\<forall>e \<in> set new. from_lang e = L)"
    unfolding grows_def by (elim conjE exE)
  then have new:
    "translations_from (deref s' L) = translations_from (deref s L) @ new"
    "distinct (map to_lang new)" "to_lang ` set new \<inter> dests s L = {}"
    "\<forall>e \<in> set new. from_lang e = L"
    using assms(3) by simp_all
  have "\<forall>t \<in> set (translations_from (deref s' L)).
        \<forall>t2 \<in> set (translations_from (deref s (to_lang t))). to_lang t2 \<in> dests s' L"
    using assms(2) grows_subset[OF assms(1)] unfolding closed_for_def by blast
  with new show ?thesis unfolding settled_def by blast
qed

lemma settled_earlier:
  assumes "settled s1 s' c"
    and "\<And>M. set (translations_from (deref s M)) \<subseteq> set (translations_from (deref s1 M))"
    and "translations_from (deref s1 c) = translations_from (deref s c)"
  shows "settled s s' c"
proof -
  have d: "dests s1 c = dests s c" by (simp add: dests_def assms(3))
  show ?thesis
    using assms(1) assms(2) unfolding settled_def d assms(3) by blast
qed

lemma settled_later:
  assumes "settled s s1 c"
    and "translations_from (deref s' c) = translations_from (deref s1 c)"
  shows "settled s s' c"
proof -
  have d: "dests s' c = dests s1 c" by (simp add: dests_def assms(2))
  show ?thesis
    using assms(1) unfolding settled_def d assms(2) .
qed

lemma fold_pivot_while:
  "distinct cs \<Longrightarrow> all_own s \<Longrightarrow>
   codes (fold pivot_while cs s) = codes s \<and>
   all_dests (fold pivot_while cs s) = all_dests s \<and>
   all_own (fold pivot_while cs s) \<and>
   (\<forall>c. c \<notin> set cs \<longrightarrow>
      translations_from (deref (fold pivot_while cs s) c) = translations_from (deref s c)) \<and>
   (\<forall>c \<in> set cs. settled s (fold pivot_while cs s) c)"
proof (induction cs arbitrary: s)
  case Nil
  then show ?case by simp
next
  case (Cons c0 cs)
  let ?s1 = "pivot_while c0 s"
  let ?s' = "fold pivot_while cs ?s1"
  have own: "own_edges s c0" using Cons.prems(2) by (simp add: all_own_def)
  have g: "grows c0 s ?s1" by (rule pivot_while_grows)
  have cl: "closed_for ?s1 c0" by (rule pivot_while_closed)
  have s0: "settled s ?s1 c0" using g cl own by (rule grows_settled)
  have own1: "all_own ?s1" using g Cons.prems(2) by (rule grows_all_own)
  have d: "distinct cs" "c0 \<notin> set cs" using Cons.prems(1) by simp_all
  have ih: "codes ?s' = codes ?s1" "all_dests ?s' = all_dests ?s1" "all_own ?s'"
    "\<forall>c. c \<notin> set cs \<longrightarrow> translations_from (deref ?s' c) = translations_from (deref ?s1 c)"
    "\<forall>c \<in> set cs. settled ?s1 ?s' c"
    using Cons.IH[OF d(1) own1] by simp_all
  have 1: "codes ?s' = codes s" using ih(1) grows_codes[OF g] by simp
  have 2: "all_dests ?s' = all_dests s" using ih(2) grows_all_dests[OF g] by simp
  have 4: "\<forall>c. c \<notin> set (c0 # cs) \<longrightarrow>
      translations_from (deref ?s' c) = translations_from (deref s c)"
    using ih(4) grows_frame[OF g] by simp
  have 5: "\<forall>c \<in> set (c0 # cs). settled s ?s' c"
  proof
    fix c assume c: "c \<in> set (c0 # cs)"
    show "settled s ?s' c"
    proof (cases "c = c0")
      case True
      have "translations_from (deref ?s' c0) = translations_from (deref ?s1 c0)"
        using ih(4) d(2) by simp
      with s0 show ?thesis unfolding True by (rule settled_later)
    next
      case False
      then have "c \<in> set cs" using c by simp
      then have "settled ?s1 ?s' c" using ih(5) by simp
      moreover have "\<And>M. set (translations_from (deref s M))
          \<subseteq> set (translations_from (deref ?s1 M))"
        using g by (rule grows_subset)
      moreover have "translations_from (deref ?s1 c) = translations_from (deref s c)"
        using g False by (rule grows_frame)
      ultimately show ?thesis by (rule settled_earlier)
    qed
  qed
  show ?case using 1 2 ih(3) 4 5 by simp
qed

subsection \<open>The final order of the list\<close>

lemma deref_code_self: "distinct (codes s) \<Longrightarrow> l \<in> set s \<Longrightarrow> deref s (code l) = l"
  by (induction s) (auto simp: deref_def codes_def)

lemma find_dropWhile:
  "find P xs = Some x \<Longrightarrow> dropWhile (\<lambda>y. \<not> P y) xs = x # tl (dropWhile (\<lambda>y. \<not> P y) xs)"
  by (induction xs) (auto split: if_splits)

lemma english_first_split:
  assumes "find (\<lambda>language. code language = ''en'') languages = Some english"
  shows "languages = takeWhile (\<lambda>language. code language \<noteq> ''en'') languages @
      english # tl (dropWhile (\<lambda>language. code language \<noteq> ''en'') languages)"
proof -
  have "dropWhile (\<lambda>language. code language \<noteq> ''en'') languages =
      english # tl (dropWhile (\<lambda>language. code language \<noteq> ''en'') languages)"
    using find_dropWhile[OF assms] by simp
  then show ?thesis by (metis takeWhile_dropWhile_id)
qed

lemma set_english_first [simp]: "set (english_first languages) = set languages"
proof (cases "find (\<lambda>language. code language = ''en'') languages")
  case None
  then show ?thesis by (simp add: english_first_def)
next
  case (Some english)
  let ?A = "takeWhile (\<lambda>language. code language \<noteq> ''en'') languages"
  let ?B = "tl (dropWhile (\<lambda>language. code language \<noteq> ''en'') languages)"
  have "set languages = set (?A @ english # ?B)"
    using english_first_split[OF Some] by simp
  then show ?thesis using Some by (auto simp: english_first_def)
qed

lemma distinct_english_first:
  assumes "distinct languages"
  shows "distinct (english_first languages)"
proof (cases "find (\<lambda>language. code language = ''en'') languages")
  case None
  then show ?thesis using assms by (simp add: english_first_def)
next
  case (Some english)
  let ?A = "takeWhile (\<lambda>language. code language \<noteq> ''en'') languages"
  let ?B = "tl (dropWhile (\<lambda>language. code language \<noteq> ''en'') languages)"
  have "distinct (?A @ english # ?B)"
    using english_first_split[OF Some] assms by simp
  then show ?thesis using Some by (auto simp: english_first_def)
qed

lemma set_codes_english_first [simp]:
  "set (codes (english_first languages)) = set (codes languages)"
  by (simp add: codes_def)

lemma distinct_codes_english_first:
  assumes "distinct (codes languages)"
  shows "distinct (codes (english_first languages))"
proof -
  have "distinct languages" "inj_on code (set languages)"
    using assms by (simp_all add: codes_def distinct_map)
  then show ?thesis
    by (simp add: codes_def distinct_map distinct_english_first)
qed

lemma deref_english_first:
  assumes "distinct (codes languages)"
  shows "deref (english_first languages) c = deref languages c"
proof (cases "c \<in> set (codes languages)")
  case True
  then have "deref languages c \<in> set (english_first languages)"
    by (simp add: deref_in_set)
  moreover have "distinct (codes (english_first languages))"
    using assms by (rule distinct_codes_english_first)
  ultimately have "deref (english_first languages) (code (deref languages c)) = deref languages c"
    by (intro deref_code_self)
  then show ?thesis by simp
next
  case False
  then show ?thesis by (simp add: deref_notin)
qed

subsection \<open>The edges of the OpenNMT graph\<close>

definition loaded :: "Package list \<Rightarrow> Language list" where
  "loaded ps = add_identity_translations (fold load_package ps [])"

lemma from_deref_Nil [simp]: "translations_from (deref [] c) = []"
  by (simp add: deref_def new_Language_def)

lemma codes_Nil [simp]: "codes [] = []"
  by (simp add: codes_def)

lemma distinct_codes_loaded: "distinct (codes (loaded ps))"
  by (simp add: loaded_def distinct_fold_load)

lemma set_codes_loaded: "set (codes (loaded ps)) = from_code ` set ps \<union> to_code ` set ps"
  by (simp add: loaded_def set_codes_fold_load)

lemma from_loaded:
  "translations_from (deref (loaded ps) c) =
     package_edges ps c @ (if c \<in> set (codes (loaded ps)) then [IdentityTranslation c] else [])"
  by (simp add: loaded_def from_add_identity distinct_fold_load fold_load_package)

lemma from_lang_package_edges: "e \<in> set (package_edges ps c) \<Longrightarrow> from_lang e = c"
  by (auto simp: package_edges_def)

lemma to_lang_package_edges:
  "to_lang ` set (package_edges ps c) = to_code ` {p \<in> set ps. from_code p = c}"
  by (auto simp: package_edges_def image_iff)

lemma all_own_loaded: "all_own (loaded ps)"
  by (auto simp: all_own_def own_edges_def from_loaded from_lang_package_edges)

lemma opennmt_languages_fold:
  "opennmt_languages packages =
     fold pivot_while (codes (loaded (translate_packages packages)))
       (loaded (translate_packages packages))"
  by (simp add: opennmt_languages_def pivot_languages_def loaded_def)

lemma codes_opennmt:
  "codes (opennmt_languages packages) = codes (loaded (translate_packages packages))"
  unfolding opennmt_languages_fold
  using fold_pivot_while[OF distinct_codes_loaded all_own_loaded] by blast

lemma distinct_codes_opennmt: "distinct (codes (opennmt_languages packages))"
  by (simp add: codes_opennmt distinct_codes_loaded)

lemma set_codes_opennmt:
  "set (codes (opennmt_languages packages)) =
     from_code ` set (translate_packages packages) \<union> to_code ` set (translate_packages packages)"
  by (simp add: codes_opennmt set_codes_loaded)

lemma all_own_opennmt: "all_own (opennmt_languages packages)"
  unfolding opennmt_languages_fold
  using fold_pivot_while[OF distinct_codes_loaded all_own_loaded] by blast

lemma settled_opennmt:
  "c \<in> set (codes (opennmt_languages packages)) \<Longrightarrow>
   settled (loaded (translate_packages packages)) (opennmt_languages packages) c"
  unfolding codes_opennmt unfolding opennmt_languages_fold
  using fold_pivot_while[OF distinct_codes_loaded all_own_loaded] by blast

lemma all_dests_opennmt:
  "all_dests (opennmt_languages packages) = all_dests (loaded (translate_packages packages))"
  unfolding opennmt_languages_fold
  using fold_pivot_while[OF distinct_codes_loaded all_own_loaded] by blast

lemma opennmt_edges:
  assumes "c \<in> set (codes (opennmt_languages packages))"
  shows "\<exists>new. translations_from (deref (opennmt_languages packages) c) =
      package_edges (translate_packages packages) c @ IdentityTranslation c # new \<and>
      distinct (map to_lang new) \<and>
      to_lang ` set new \<inter>
        insert c (to_lang ` set (package_edges (translate_packages packages) c)) = {} \<and>
      (\<forall>e \<in> set new. from_lang e = c)"
proof -
  let ?P = "translate_packages packages"
  have c: "c \<in> set (codes (loaded ?P))" using assms by (simp add: codes_opennmt)
  then have base: "translations_from (deref (loaded ?P) c) =
      package_edges ?P c @ [IdentityTranslation c]"
    by (simp add: from_loaded)
  then have d: "dests (loaded ?P) c = insert c (to_lang ` set (package_edges ?P c))"
    by (auto simp: dests_def)
  from settled_opennmt[OF assms] obtain new where
    "translations_from (deref (opennmt_languages packages) c) =
       translations_from (deref (loaded ?P) c) @ new"
    "distinct (map to_lang new)" "to_lang ` set new \<inter> dests (loaded ?P) c = {}"
    "\<forall>e \<in> set new. from_lang e = c"
    unfolding settled_def by (elim conjE exE)
  then show ?thesis unfolding base d by (intro exI[of _ new]) simp
qed

lemma opennmt_closed:
  assumes "c \<in> set (codes (opennmt_languages packages))"
    and "t \<in> set (translations_from (deref (opennmt_languages packages) c))"
    and "p \<in> set (translate_packages packages)" and "from_code p = to_lang t"
  shows "to_code p \<in> dests (opennmt_languages packages) c"
proof -
  let ?P = "translate_packages packages"
  have "PackageTranslation (from_code p) (to_code p) p \<in> set (package_edges ?P (to_lang t))"
    using assms(3,4) by (simp add: package_edges_def)
  then have "PackageTranslation (from_code p) (to_code p) p
      \<in> set (translations_from (deref (loaded ?P) (to_lang t)))"
    by (simp add: from_loaded)
  moreover have "\<forall>t \<in> set (translations_from (deref (opennmt_languages packages) c)).
      \<forall>t2 \<in> set (translations_from (deref (loaded ?P) (to_lang t))).
        to_lang t2 \<in> dests (opennmt_languages packages) c"
    using settled_opennmt[OF assms(1)] unfolding settled_def by (elim conjE)
  ultimately have "to_lang (PackageTranslation (from_code p) (to_code p) p)
      \<in> dests (opennmt_languages packages) c"
    using assms(2) by blast
  then show ?thesis by simp
qed

subsection \<open>The lookup functions\<close>

lemma find_filter_hd:
  "find P xs = (case filter P xs of [] \<Rightarrow> None | x # rest \<Rightarrow> Some x)"
  by (induction xs) auto

lemma get_translation_find:
  "get_translation l to = find (\<lambda>x. to_lang x = code to) (translations_from l)"
  by (simp add: get_translation_def Let_def find_filter_hd split: list.splits)

lemma get_translation_Some:
  "get_translation l to = Some e \<Longrightarrow> e \<in> set (translations_from l) \<and> to_lang e = code to"
  unfolding get_translation_find by (auto simp: find_Some_iff)

lemma filter_code_deref:
  "c \<in> set (codes s) \<Longrightarrow> \<exists>rest. filter (\<lambda>x. code x = c) s = deref s c # rest"
  by (induction s) (auto simp: deref_def codes_def)

lemma filter_code_notin:
  "c \<notin> set (codes s) \<Longrightarrow> filter (\<lambda>x. code x = c) s = []"
  by (induction s) (auto simp: codes_def)

lemma get_language_from_code_eq:
  assumes "get_installed_languages inst = Inr languages"
  shows "get_language_from_code inst c =
    (if c \<in> set (codes languages) then Inr (deref languages c) else Inl IndexError)"
proof (cases "c \<in> set (codes languages)")
  case True
  then obtain rest where "filter (\<lambda>x. code x = c) languages = deref languages c # rest"
    using filter_code_deref by blast
  then show ?thesis using True assms by (simp add: get_language_from_code_def)
next
  case False
  then show ?thesis using assms by (simp add: get_language_from_code_def filter_code_notin)
qed

lemma codes_openai: "codes (english_first openai_languages) = [''en'', ''es'']"
  by code_simp

lemma installed_distinct:
  assumes "get_installed_languages inst = Inr languages"
  shows "distinct (codes languages)"
proof (cases "model_provider inst")
  case OPENNMT
  then have "languages = english_first (opennmt_languages (installed_packages inst))"
    using assms by (simp add: get_installed_languages_def)
  then show ?thesis by (simp add: distinct_codes_english_first distinct_codes_opennmt)
next
  case LIBRETRANSLATE
  then have "languages = []"
    using assms by (simp add: get_installed_languages_def Let_def english_first_def split: if_splits)
  then show ?thesis by simp
next
  case OPENAI
  then have "languages = english_first openai_languages"
    using assms by (simp add: get_installed_languages_def)
  then show ?thesis by (simp add: codes_openai)
qed

subsection \<open>An example: a package from en to es and one from es to fr\<close>

definition pkg_en_es :: Package where
  "pkg_en_es = \<lparr>package_path = ''translate-en_es'', pkg_type = ''translate'',
     from_code = ''en'', from_name = ''English'', to_code = ''es'', to_name = ''Spanish''\<rparr>"

definition pkg_es_fr :: Package where
  "pkg_es_fr = \<lparr>package_path = ''translate-es_fr'', pkg_type = ''translate'',
     from_code = ''es'', from_name = ''Spanish'', to_code = ''fr'', to_name = ''French''\<rparr>"

definition installation_en_es_fr :: installation where
  "installation_en_es_fr =
     \<lparr>model_provider = OPENNMT, installed_packages = [pkg_en_es, pkg_es_fr],
      supported_languages = []\<rparr>"

lemma installed_en_es_fr:
  "get_installed_languages installation_en_es_fr =
     Inr (english_first (opennmt_languages [pkg_en_es, pkg_es_fr]))"
  by (simp add: get_installed_languages_def installation_en_es_fr_def)

lemma codes_en_es_fr:
  "codes (english_first (opennmt_languages [pkg_en_es, pkg_es_fr])) = [''en'', ''fr'', ''es'']"
  by code_simp

lemma get_translation_from_codes_eq:
  assumes "get_installed_languages inst = Inr languages"
    and "fcode \<in> set (codes languages)" and "tcode \<in> set (codes languages)"
  shows "get_translation_from_codes inst fcode tcode =
    Inr (get_translation (deref languages fcode) (deref languages tcode))"
  using assms by (simp add: get_translation_from_codes_def get_language_from_code_eq[OF assms(1)])

lemma from_es_en_es_fr:
  "translations_from (deref (english_first (opennmt_languages [pkg_en_es, pkg_es_fr])) ''es'') =
     [PackageTranslation ''es'' ''fr'' pkg_es_fr, IdentityTranslation ''es'']"
  by code_simp

lemma from_en_en_es_fr:
  "translations_from (deref (english_first (opennmt_languages [pkg_en_es, pkg_es_fr])) ''en'') =
     [PackageTranslation ''en'' ''es'' pkg_en_es, IdentityTranslation ''en'',
      CompositeTranslation (PackageTranslation ''en'' ''es'' pkg_en_es)
        (PackageTranslation ''es'' ''fr'' pkg_es_fr)]"
  by code_simp

subsection \<open>The number of passes of the while loop\<close>

text \<open>
  The \<^verbatim>\<open>while\<close> loop of the pivot step with a bound on the number of its passes:
  \<open>None\<close> when the bound is reached before a pass adds nothing. It is used to state
  how many passes the loop makes.
\<close>

fun pivot_while_fuel :: "nat \<Rightarrow> string \<Rightarrow> Language list \<Rightarrow> Language list option" where
  "pivot_while_fuel 0 language s = None"
| "pivot_while_fuel (Suc n) language s =
     (if snd (pivot_for language 0 (s, False))
      then pivot_while_fuel n language (fst (pivot_for language 0 (s, False)))
      else Some (fst (pivot_for language 0 (s, False))))"

lemma pivot_pass_decreases:
  assumes "snd (pivot_for L 0 (s, False))"
  shows "missing (fst (pivot_for L 0 (s, False))) L < missing s L"
  using pivot_for_ok[of L "(s, False)" 0] assms by (auto simp: step_ok_def)

lemma pivot_while_fuel_enough:
  "\<forall>n. missing s L < n \<longrightarrow> pivot_while_fuel n L s = Some (pivot_while L s)"
proof (induction L s rule: pivot_while.induct)
  case (1 L s)
  let ?p = "pivot_for L 0 (s, False)"
  show ?case
  proof (intro allI impI)
    fix n assume n: "missing s L < n"
    then obtain k where k: "n = Suc k" by (cases n) simp_all
    show "pivot_while_fuel n L s = Some (pivot_while L s)"
    proof (cases "snd ?p")
      case True
      have "missing (fst ?p) L < k"
        using pivot_pass_decreases[OF True] n k by simp
      then have "pivot_while_fuel k L (fst ?p) = Some (pivot_while L (fst ?p))"
        using "1.IH"[OF True] by blast
      moreover have "pivot_while L s = pivot_while L (fst ?p)"
        using True by (subst pivot_while.simps) simp
      ultimately show ?thesis using True k by simp
    next
      case False
      then have "pivot_while L s = fst ?p" by (subst pivot_while.simps) simp
      then show ?thesis using False k by simp
    qed
  qed
qed

lemma pivot_while_unchanged:
  assumes "\<not> snd (pivot_for L 0 (s, False))"
  shows "pivot_while L s = s"
proof -
  have "pivot_for L 0 (s, False) = (s, False)"
    using pivot_for_fix[OF assms] by simp
  then show ?thesis by (subst pivot_while.simps) simp
qed

lemma grows_bound:
  assumes "grows L s s'"
  shows "\<exists>new. translations_from (deref s' L) = translations_from (deref s L) @ new \<and>
     distinct (map to_lang new) \<and> to_lang ` set new \<inter> dests s L = {} \<and>
     length new \<le> missing s L"
proof -
  from assms obtain new where new:
    "translations_from (deref s' L) = translations_from (deref s L) @ new"
    "distinct (map to_lang new)" "to_lang ` set new \<inter> dests s L = {}"
    "to_lang ` set new \<subseteq> all_dests s"
    unfolding grows_def by (elim conjE exE)
  have "length new = card (to_lang ` set new)"
    using new(2) by (metis distinct_card length_map set_map)
  also have "\<dots> \<le> card (all_dests s - dests s L)"
    using new(3,4) by (intro card_mono) auto
  finally have "length new \<le> missing s L" by (simp add: missing_def)
  with new(1,2,3) show ?thesis by blast
qed

lemma pivot_fixpoint_en_es_fr:
  "\<not> snd (pivot_for ''en'' 0 (opennmt_languages [pkg_en_es, pkg_es_fr], False))"
  by code_simp

subsection \<open>Pairs of codes\<close>

definition edge_pair :: "ITranslation \<Rightarrow> string \<times> string" where
  "edge_pair t = (from_lang t, to_lang t)"

definition package_pair :: "Package \<Rightarrow> string \<times> string" where
  "package_pair p = (from_code p, to_code p)"

lemma distinct_to_lang_edge_pair:
  "distinct (map to_lang ts) \<Longrightarrow> distinct (map edge_pair ts)"
  by (induction ts) (auto simp: edge_pair_def)

lemma map_to_lang_package_edges:
  "map to_lang (package_edges ps c) = map to_code (filter (\<lambda>p. from_code p = c) ps)"
  by (simp add: package_edges_def comp_def)

lemma distinct_to_code_filter:
  "distinct (map package_pair ps) \<Longrightarrow> distinct (map to_code (filter (\<lambda>p. from_code p = c) ps))"
proof (induction ps)
  case Nil
  then show ?case by simp
next
  case (Cons p ps)
  then have ih: "distinct (map to_code (filter (\<lambda>p. from_code p = c) ps))" by simp
  show ?case
  proof (cases "from_code p = c")
    case True
    have "package_pair p \<notin> package_pair ` set ps" using Cons.prems by simp
    then have "to_code p \<notin> to_code ` {q \<in> set ps. from_code q = c}"
      using True by (auto simp: package_pair_def image_iff)
    then show ?thesis using True ih by (simp add: image_def)
  next
    case False
    then show ?thesis using ih by simp
  qed
qed

lemma opennmt_pairs_unique:
  assumes "distinct (map package_pair (translate_packages packages))"
    and "\<forall>p \<in> set (translate_packages packages). from_code p \<noteq> to_code p"
    and "l \<in> set (opennmt_languages packages)"
  shows "distinct (map to_lang (translations_from l))"
proof -
  let ?P = "translate_packages packages"
  let ?c = "code l"
  have c: "?c \<in> set (codes (opennmt_languages packages))"
    using assms(3) by (simp add: codes_def)
  have l: "deref (opennmt_languages packages) ?c = l"
    using distinct_codes_opennmt assms(3) by (rule deref_code_self)
  from opennmt_edges[OF c] obtain new where new:
    "translations_from l = package_edges ?P ?c @ IdentityTranslation ?c # new"
    "distinct (map to_lang new)"
    "to_lang ` set new \<inter> insert ?c (to_lang ` set (package_edges ?P ?c)) = {}"
    unfolding l by (elim conjE exE)
  have 1: "distinct (map to_lang (package_edges ?P ?c))"
    unfolding map_to_lang_package_edges using assms(1) by (rule distinct_to_code_filter)
  have 2: "?c \<notin> to_lang ` set (package_edges ?P ?c)"
    using assms(2) by (auto simp: to_lang_package_edges)
  have 3: "?c \<notin> to_lang ` set new" using new(3) by blast
  have 4: "to_lang ` set (package_edges ?P ?c) \<inter> to_lang ` set new = {}"
    using new(3) by blast
  show ?thesis unfolding new(1) using 1 2 3 4 new(2) by simp
qed

lemma openai_pairs_unique:
  "list_all (\<lambda>l. distinct (map to_lang (translations_from l))) (english_first openai_languages)"
  by code_simp

definition pkg_en_es_2 :: Package where
  "pkg_en_es_2 = \<lparr>package_path = ''translate-en_es-1_9'', pkg_type = ''translate'',
     from_code = ''en'', from_name = ''English'', to_code = ''es'', to_name = ''Spanish''\<rparr>"

definition installation_en_es_twice :: installation where
  "installation_en_es_twice =
     \<lparr>model_provider = OPENNMT, installed_packages = [pkg_en_es, pkg_en_es_2],
      supported_languages = []\<rparr>"

lemma distinct_pairs_en_es_fr:
  "distinct (map package_pair (translate_packages [pkg_en_es, pkg_es_fr])) \<and>
   (\<forall>p \<in> set (translate_packages [pkg_en_es, pkg_es_fr]). from_code p \<noteq> to_code p)"
  by (simp add: translate_packages_def pkg_en_es_def pkg_es_fr_def package_pair_def)

subsection \<open>The package edges come first\<close>

lemma find_append_Some: "find P xs = Some x \<Longrightarrow> find P (xs @ ys) = Some x"
  by (induction xs) auto

lemma find_append_None: "find P xs = None \<Longrightarrow> find P (xs @ ys) = find P ys"
  by (induction xs) (auto split: if_splits)

lemma find_package_edges:
  "find (\<lambda>x. to_lang x = t) (package_edges ps f) =
     map_option (\<lambda>p. PackageTranslation f t p)
       (find (\<lambda>q. from_code q = f \<and> to_code q = t) ps)"
  by (induction ps) (auto simp: package_edges_def)

lemma find_translate_packages:
  "find (\<lambda>q. from_code q = f \<and> to_code q = t) (translate_packages ps) =
     find (\<lambda>q. pkg_type q = ''translate'' \<and> from_code q = f \<and> to_code q = t) ps"
  by (induction ps) (auto simp: translate_packages_def)

lemma opennmt_installed:
  assumes "model_provider inst = OPENNMT"
  shows "get_installed_languages inst =
    Inr (english_first (opennmt_languages (installed_packages inst)))"
  using assms by (simp add: get_installed_languages_def)

lemma opennmt_lookup:
  assumes "model_provider inst = OPENNMT"
    and "f \<in> set (codes (opennmt_languages (installed_packages inst)))"
    and "t \<in> set (codes (opennmt_languages (installed_packages inst)))"
  shows "get_translation_from_codes inst f t =
    Inr (find (\<lambda>x. to_lang x = t)
      (translations_from (deref (opennmt_languages (installed_packages inst)) f)))"
proof -
  let ?G = "opennmt_languages (installed_packages inst)"
  have "get_translation_from_codes inst f t =
      Inr (get_translation (deref (english_first ?G) f) (deref (english_first ?G) t))"
    using opennmt_installed[OF assms(1)] assms(2,3)
    by (intro get_translation_from_codes_eq) simp_all
  then show ?thesis
    by (simp add: get_translation_find deref_english_first distinct_codes_opennmt)
qed

subsection \<open>Identity edges, and an example of a package from a language to itself\<close>

lemma IdentityTranslation_hypotheses_replicate:
  "IdentityTranslation_hypotheses x n = replicate n \<lparr>hvalue = x, score = 0\<rparr>"
  by (simp add: IdentityTranslation_hypotheses_def map_replicate_const)

definition pkg_en_en :: Package where
  "pkg_en_en = \<lparr>package_path = ''translate-en_en'', pkg_type = ''translate'',
     from_code = ''en'', from_name = ''English'', to_code = ''en'', to_name = ''English''\<rparr>"

definition installation_en_en :: installation where
  "installation_en_en =
     \<lparr>model_provider = OPENNMT, installed_packages = [pkg_en_en], supported_languages = []\<rparr>"

text \<open>
  A stand-in for the imported modules: one chunk per text, one token per chunk, and a
  translator that returns the token \<open>y\<close> with score -1 for every hypothesis.
\<close>

definition externals_y :: externals where
  "externals_y =
     \<lparr>chunk = (\<lambda>text. [text]),
      sp_encode = (\<lambda>pkg sentence. [sentence]),
      translate_batch = (\<lambda>pkg tokenized beam_size n. map (\<lambda>tokens. replicate n ([''y''], -1)) tokenized),
      api_translate = (\<lambda>text f t. text),
      generate_prompt = (\<lambda>sentence fname fcode tname tcode. sentence),
      infer = (\<lambda>prompt. prompt),
      parse_inference = (\<lambda>response. response)\<rparr>"

lemma hypotheses_en_en_y:
  "hypotheses externals_y g (PackageTranslation ''en'' ''en'' pkg_en_en) ''x'' 1 =
     Inr [\<lparr>hvalue = ''y'', score = -1\<rparr>]"
  by (simp add: apply_packaged_translation_def externals_y_def word_boundary_def)

lemma translate_Identity: "translate ext g (IdentityTranslation c) x = Inr x"
  by (simp add: translate_def IdentityTranslation_hypotheses_def)

lemma opennmt_member:
  assumes "model_provider inst = OPENNMT" and "get_installed_languages inst = Inr languages"
    and "L \<in> set languages"
  shows "L \<in> set (opennmt_languages (installed_packages inst))"
    and "code L \<in> set (codes (opennmt_languages (installed_packages inst)))"
    and "deref (opennmt_languages (installed_packages inst)) (code L) = L"
proof -
  have "languages = english_first (opennmt_languages (installed_packages inst))"
    using assms(1,2) by (simp add: get_installed_languages_def)
  then show m: "L \<in> set (opennmt_languages (installed_packages inst))"
    using assms(3) by simp
  then show "code L \<in> set (codes (opennmt_languages (installed_packages inst)))"
    by (simp add: codes_def)
  show "deref (opennmt_languages (installed_packages inst)) (code L) = L"
    using distinct_codes_opennmt m by (rule deref_code_self)
qed

lemma own_edges_opennmt:
  "e \<in> set (translations_from (deref (opennmt_languages packages) c)) \<Longrightarrow> from_lang e = c"
  using all_own_opennmt[of packages] by (simp add: all_own_def own_edges_def)

subsection \<open>Paths of direct edges\<close>

text \<open>
  The pairs of codes of the direct edges: one for every installed translate package.
\<close>

definition direct_edges :: "Package list \<Rightarrow> (string \<times> string) set" where
  "direct_edges packages = package_pair ` set (translate_packages packages)"

lemma opennmt_reaches:
  assumes "c \<in> set (codes (opennmt_languages packages))"
    and "(c, n) \<in> (direct_edges packages)\<^sup>*"
  shows "n \<in> dests (opennmt_languages packages) c"
  using assms(2)
proof (induction rule: rtrancl_induct)
  case base
  from opennmt_edges[OF assms(1)] obtain new where
    "translations_from (deref (opennmt_languages packages) c) =
       package_edges (translate_packages packages) c @ IdentityTranslation c # new"
    by (elim conjE exE)
  then show ?case by (simp add: dests_def)
next
  case (step m n)
  from step.hyps(2) obtain p where p: "p \<in> set (translate_packages packages)"
    "from_code p = m" "to_code p = n"
    by (auto simp: direct_edges_def package_pair_def)
  from step.IH obtain t where t:
    "t \<in> set (translations_from (deref (opennmt_languages packages) c))" "to_lang t = m"
    by (auto simp: dests_def)
  have "to_code p \<in> dests (opennmt_languages packages) c"
    using assms(1) t(1) p(1) by (rule opennmt_closed) (simp add: p(2) t(2))
  then show ?case by (simp add: p(3))
qed

lemma path_en_fr:
  "(''en'', ''fr'') \<in> (direct_edges (installed_packages installation_en_es_fr))\<^sup>*"
proof -
  have "(''en'', ''es'') \<in> direct_edges (installed_packages installation_en_es_fr)"
    by (simp add: direct_edges_def installation_en_es_fr_def translate_packages_def
        package_pair_def pkg_en_es_def pkg_es_fr_def)
  moreover have "(''es'', ''fr'') \<in> direct_edges (installed_packages installation_en_es_fr)"
    by (simp add: direct_edges_def installation_en_es_fr_def translate_packages_def
        package_pair_def pkg_en_es_def pkg_es_fr_def)
  ultimately show ?thesis by (meson rtrancl.rtrancl_into_rtrancl r_into_rtrancl)
qed

subsection \<open>References stay inside the graph\<close>

lemma all_dests_loaded: "all_dests (loaded ps) \<subseteq> set (codes (loaded ps))"
proof
  fix d assume "d \<in> all_dests (loaded ps)"
  then obtain l e where l: "l \<in> set (loaded ps)" and e: "e \<in> set (translations_from l)"
    and d: "d = to_lang e"
    unfolding all_dests_def by blast
  have c: "code l \<in> set (codes (loaded ps))" using l by (simp add: codes_def)
  have "deref (loaded ps) (code l) = l"
    using distinct_codes_loaded l by (rule deref_code_self)
  then have "translations_from l = package_edges ps (code l) @ [IdentityTranslation (code l)]"
    using from_loaded[of ps "code l"] c by simp
  then have "to_lang e = code l \<or> to_lang e \<in> to_code ` set ps"
    using e by (auto simp: package_edges_def)
  then show "d \<in> set (codes (loaded ps))"
    using c d by (auto simp: set_codes_loaded)
qed

lemma graph_refs_closed:
  assumes "get_installed_languages inst = Inr languages"
    and "l \<in> set languages" and "e \<in> set (translations_from l)"
  shows "to_lang e \<in> set (codes languages)"
proof (cases "model_provider inst")
  case OPENNMT
  let ?G = "opennmt_languages (installed_packages inst)"
  have "languages = english_first ?G"
    using assms(1) OPENNMT by (simp add: get_installed_languages_def)
  then have s: "set languages = set ?G" "set (codes languages) = set (codes ?G)"
    by simp_all
  have "to_lang e \<in> all_dests ?G"
    using assms(2,3) s(1) unfolding all_dests_def by blast
  then have "to_lang e \<in> set (codes ?G)"
    using all_dests_loaded by (auto simp: all_dests_opennmt codes_opennmt)
  then show ?thesis using s(2) by simp
next
  case LIBRETRANSLATE
  then have "languages = []"
    using assms(1)
    by (simp add: get_installed_languages_def Let_def english_first_def split: if_splits)
  then show ?thesis using assms(2) by simp
next
  case OPENAI
  then have s: "languages = english_first openai_languages"
    using assms(1) by (simp add: get_installed_languages_def)
  have "list_all (\<lambda>l. list_all (\<lambda>e. to_lang e \<in> set (codes (english_first openai_languages)))
      (translations_from l)) (english_first openai_languages)"
    by code_simp
  then show ?thesis using assms(2,3) unfolding s by (auto simp: list_all_iff)
qed

subsection \<open>The hypotheses of a composite edge in general\<close>

lemma combine_Inr:
  assumes "\<forall>a \<in> set hs1. \<exists>hs2. h2 (hvalue a) n = Inr hs2 \<and> length hs2 = n"
  shows "\<exists>r. combine h2 n hs1 acc = Inr (acc @ r) \<and> length r = length hs1 * n \<and>
    (\<forall>c \<in> set r. \<exists>a \<in> set hs1. \<exists>hs2. h2 (hvalue a) n = Inr hs2 \<and>
       (\<exists>b \<in> set hs2. c = \<lparr>hvalue = hvalue b, score = score a + score b\<rparr>))"
  using assms
proof (induction hs1 arbitrary: acc)
  case Nil
  then show ?case by simp
next
  case (Cons a hs1)
  from Cons.prems obtain hs2 where hs2: "h2 (hvalue a) n = Inr hs2" "length hs2 = n"
    by auto
  let ?new = "map (\<lambda>b. \<lparr>hvalue = hvalue b, score = score a + score b\<rparr>) hs2"
  from Cons.IH[of "acc @ ?new"] Cons.prems obtain r where r:
    "combine h2 n hs1 (acc @ ?new) = Inr ((acc @ ?new) @ r)" "length r = length hs1 * n"
    "\<forall>c \<in> set r. \<exists>a \<in> set hs1. \<exists>hs2. h2 (hvalue a) n = Inr hs2 \<and>
       (\<exists>b \<in> set hs2. c = \<lparr>hvalue = hvalue b, score = score a + score b\<rparr>)"
    by auto
  have 1: "combine h2 n (a # hs1) acc = Inr (acc @ (?new @ r))"
    using hs2(1) r(1) by simp
  have 2: "length (?new @ r) = length (a # hs1) * n"
    using hs2(2) r(2) by simp
  have 3: "\<forall>c \<in> set (?new @ r). \<exists>a' \<in> set (a # hs1). \<exists>hs2. h2 (hvalue a') n = Inr hs2 \<and>
       (\<exists>b \<in> set hs2. c = \<lparr>hvalue = hvalue b, score = score a' + score b\<rparr>)"
  proof
    fix c assume "c \<in> set (?new @ r)"
    then consider "c \<in> set ?new" | "c \<in> set r" by auto
    then show "\<exists>a' \<in> set (a # hs1). \<exists>hs2. h2 (hvalue a') n = Inr hs2 \<and>
       (\<exists>b \<in> set hs2. c = \<lparr>hvalue = hvalue b, score = score a' + score b\<rparr>)"
    proof cases
      case 1
      then obtain b where "b \<in> set hs2" "c = \<lparr>hvalue = hvalue b, score = score a + score b\<rparr>"
        by auto
      then show ?thesis using hs2(1) by auto
    next
      case 2
      then show ?thesis using r(3) by auto
    qed
  qed
  show ?case using 1 2 3 by blast
qed

text \<open>
  What \<^verbatim>\<open>CompositeTranslation.hypotheses\<close> returns when the first edge returns
  \<open>n\<close> hypotheses and the second edge returns \<open>n\<close> hypotheses for each of them:
  \<open>n\<close> hypotheses of the cross-product, each with the sum of the two scores, in
  ascending order of score.
\<close>

lemma composite_hypotheses_ascending:
  assumes "h1 x n = Inr hs1" and "length hs1 = n"
    and "\<forall>a \<in> set hs1. \<exists>hs2. h2 (hvalue a) n = Inr hs2 \<and> length hs2 = n"
  shows "\<exists>r. CompositeTranslation_hypotheses h1 h2 x n = Inr r \<and> length r = n \<and>
    sorted (map score r) \<and>
    (\<forall>c \<in> set r. \<exists>a \<in> set hs1. \<exists>hs2. h2 (hvalue a) n = Inr hs2 \<and>
       (\<exists>b \<in> set hs2. c = \<lparr>hvalue = hvalue b, score = score a + score b\<rparr>))"
proof -
  from combine_Inr[of hs1 h2 n "[]"] assms(3) obtain all where all:
    "combine h2 n hs1 [] = Inr all" "length all = length hs1 * n"
    "\<forall>c \<in> set all. \<exists>a \<in> set hs1. \<exists>hs2. h2 (hvalue a) n = Inr hs2 \<and>
       (\<exists>b \<in> set hs2. c = \<lparr>hvalue = hvalue b, score = score a + score b\<rparr>)"
    by auto
  let ?r = "take n (sort_key score all)"
  have 1: "CompositeTranslation_hypotheses h1 h2 x n = Inr ?r"
    using assms(1) all(1) by (simp add: CompositeTranslation_hypotheses_def)
  have "n \<le> n * n" by (cases n) simp_all
  then have 2: "length ?r = n" using all(2) assms(2) by simp
  have "sorted (map score (sort_key score all))" by (rule sorted_sort_key)
  then have 3: "sorted (map score ?r)"
    by (metis sorted_wrt_take take_map)
  have "set ?r \<subseteq> set all"
    by (metis set_sort set_take_subset)
  then have 4: "\<forall>c \<in> set ?r. \<exists>a \<in> set hs1. \<exists>hs2. h2 (hvalue a) n = Inr hs2 \<and>
       (\<exists>b \<in> set hs2. c = \<lparr>hvalue = hvalue b, score = score a + score b\<rparr>)"
    using all(3) by blast
  show ?thesis using 1 2 3 4 by blast
qed

subsection \<open>The self edges under the OpenAI provider\<close>

definition installation_openai :: installation where
  "installation_openai =
     \<lparr>model_provider = OPENAI, installed_packages = [], supported_languages = []\<rparr>"

lemma openai_installed:
  assumes "model_provider inst = OPENAI"
  shows "get_installed_languages inst = Inr (english_first openai_languages)"
  using assms by (simp add: get_installed_languages_def)

lemma openai_self_edges:
  "list_all (\<lambda>l. get_translation l l = Some (FewShotTranslation (code l) (code l)))
     (english_first openai_languages)"
  by code_simp

lemma libretranslate_installed_empty:
  assumes "model_provider inst = LIBRETRANSLATE" and "get_installed_languages inst = Inr languages"
  shows "languages = []"
  using assms
  by (simp add: get_installed_languages_def Let_def english_first_def split: if_splits)

lemma fewshot_en_en_y:
  "hypotheses externals_y g (FewShotTranslation ''en'' ''en'') ''x'' 1 = Inl UnboundLocalError"
  by (simp add: FewShotTranslation_hypotheses_def externals_y_def)

section \<open>Properties\<close>

subsection \<open>Hypotheses of a composite edge\<close>

text \<open>
  Claim C1. For every text and every \<open>n \<ge> 1\<close>, with sub-edges that each return
  \<open>n\<close> hypotheses, \<^verbatim>\<open>CompositeTranslation.hypotheses(text, n)\<close> returns the top
  \<open>n\<close> of the cross-product, sorted descending by score.

  The code sorts ascending (\<^verbatim>\<open>to_return.sort()\<close> with \<^verbatim>\<open>__lt__\<close> on the scores)
  and keeps the first \<open>n\<close>: the \<open>n\<close> lowest scores, lowest first. Here the
  first edge returns \<open>a\<close> (score -1) and \<open>b\<close> (score -2), and the second edge
  appends \<open>c\<close> (score -1) or \<open>d\<close> (score -2) to its input. The cross-product is
  \<open>ac\<close> (-2), \<open>ad\<close> (-3), \<open>bc\<close> (-3), \<open>bd\<close> (-4); the top two, descending, are
  \<open>ac\<close> and \<open>ad\<close>; the code returns \<open>bd\<close> and \<open>ad\<close>. (Lemma
  \<open>composite_hypotheses_ascending\<close> above is the general fact: \<open>n\<close> hypotheses of
  the cross-product with the sums as scores, in ascending order.)
\<close>

theorem composite_hypotheses_keeps_lowest_scores:
  "CompositeTranslation_hypotheses
     (\<lambda>x n. Inr [\<lparr>hvalue = ''a'', score = -1\<rparr>, \<lparr>hvalue = ''b'', score = -2\<rparr>])
     (\<lambda>x n. Inr [\<lparr>hvalue = x @ ''c'', score = -1\<rparr>, \<lparr>hvalue = x @ ''d'', score = -2\<rparr>])
     ''x'' 2
   = Inr [\<lparr>hvalue = ''bd'', score = -4\<rparr>, \<lparr>hvalue = ''ad'', score = -3\<rparr>]"
  by (simp add: CompositeTranslation_hypotheses_def)

subsection \<open>Hypotheses of a few-shot edge\<close>

text \<open>
  Claim C4. For every text and every \<open>n \<ge> 1\<close>,
  \<^verbatim>\<open>FewShotTranslation.hypotheses(text, n)\<close> returns \<open>n\<close> identical hypotheses of
  score 0 whose value is the concatenation of the parsed completions of the chunks.

  The code never binds \<^verbatim>\<open>to_return\<close> before it reads it: with at least one
  chunk the first \<^verbatim>\<open>to_return += result\<close> raises, and with no chunk the
  \<^verbatim>\<open>return\<close> statement does. The method raises \<^verbatim>\<open>UnboundLocalError\<close> on
  every input, whatever the chunker, the prompt builder and the language model return.
\<close>

theorem fewshot_hypotheses_always_raises:
  "hypotheses ext g (FewShotTranslation f t) input_text num_hypotheses = Inl UnboundLocalError"
  by (cases "chunk ext input_text") (simp_all add: FewShotTranslation_hypotheses_def Let_def)

subsection \<open>Looking up a language by its code\<close>

text \<open>
  Claim C8. \<^verbatim>\<open>get_language_from_code(code)\<close> returns the installed language whose
  code is the argument when there is one, and fails with an error, not a default
  language, when there is none.

  For the list the builder returns: when a language of the list has the code, the
  function returns it, and it is the only one with that code; when none has, the
  function raises \<^verbatim>\<open>IndexError\<close> (the \<^verbatim>\<open>[0]\<close> of an empty list).
\<close>

theorem get_language_from_code_exact_or_error:
  assumes "get_installed_languages inst = Inr languages"
  shows "(c \<in> set (codes languages) \<longrightarrow>
            (\<exists>l \<in> set languages. code l = c \<and> get_language_from_code inst c = Inr l \<and>
               (\<forall>l' \<in> set languages. code l' = c \<longrightarrow> l' = l))) \<and>
         (c \<notin> set (codes languages) \<longrightarrow> get_language_from_code inst c = Inl IndexError)"
proof (intro conjI impI)
  assume c: "c \<in> set (codes languages)"
  have d: "distinct (codes languages)" using assms by (rule installed_distinct)
  have "deref languages c \<in> set languages" using c by (rule deref_in_set)
  moreover have "code (deref languages c) = c" by simp
  moreover have "get_language_from_code inst c = Inr (deref languages c)"
    using c by (simp add: get_language_from_code_eq[OF assms])
  moreover have "\<forall>l' \<in> set languages. code l' = c \<longrightarrow> l' = deref languages c"
    using deref_code_self[OF d] by auto
  ultimately show "\<exists>l \<in> set languages. code l = c \<and> get_language_from_code inst c = Inr l \<and>
               (\<forall>l' \<in> set languages. code l' = c \<longrightarrow> l' = l)"
    by blast
next
  assume "c \<notin> set (codes languages)"
  then show "get_language_from_code inst c = Inl IndexError"
    by (simp add: get_language_from_code_eq[OF assms])
qed

theorem get_language_from_code_exact_or_error_witness:
  "get_installed_languages installation_en_es_fr =
     Inr (english_first (opennmt_languages [pkg_en_es, pkg_es_fr])) \<and>
   ''fr'' \<in> set (codes (english_first (opennmt_languages [pkg_en_es, pkg_es_fr]))) \<and>
   ''xx'' \<notin> set (codes (english_first (opennmt_languages [pkg_en_es, pkg_es_fr]))) \<and>
   (\<exists>l. code l = ''fr'' \<and> get_language_from_code installation_en_es_fr ''fr'' = Inr l) \<and>
   get_language_from_code installation_en_es_fr ''xx'' = Inl IndexError"
  using get_language_from_code_exact_or_error[OF installed_en_es_fr, of "''fr''"]
    get_language_from_code_exact_or_error[OF installed_en_es_fr, of "''xx''"]
  by (auto simp: installed_en_es_fr codes_en_es_fr)

subsection \<open>Looking up an edge by two codes\<close>

text \<open>
  Claim C9. When both codes name installed languages and the first language has no
  edge to the second, \<^verbatim>\<open>get_translation_from_codes\<close> returns \<^verbatim>\<open>None\<close> and does
  not raise; when it has one, the function returns the first edge of the source
  language's \<^verbatim>\<open>translations_from\<close> whose destination code is the target code.

  \<open>find\<close> returns the first element of a list that satisfies the test, and \<open>None\<close>
  when there is none.
\<close>

theorem get_translation_from_codes_first_edge_or_none:
  assumes "get_installed_languages inst = Inr languages"
    and "fcode \<in> set (codes languages)" and "tcode \<in> set (codes languages)"
  shows "get_translation_from_codes inst fcode tcode =
           Inr (find (\<lambda>x. to_lang x = tcode) (translations_from (deref languages fcode))) \<and>
         ((\<forall>x \<in> set (translations_from (deref languages fcode)). to_lang x \<noteq> tcode) \<longrightarrow>
            get_translation_from_codes inst fcode tcode = Inr None)"
proof -
  have eq: "get_translation_from_codes inst fcode tcode =
      Inr (find (\<lambda>x. to_lang x = tcode) (translations_from (deref languages fcode)))"
    using get_translation_from_codes_eq[OF assms] by (simp add: get_translation_find)
  moreover have "(\<forall>x \<in> set (translations_from (deref languages fcode)). to_lang x \<noteq> tcode) \<longrightarrow>
      find (\<lambda>x. to_lang x = tcode) (translations_from (deref languages fcode)) = None"
    by (simp add: find_None_iff)
  ultimately show ?thesis by simp
qed

theorem get_translation_from_codes_first_edge_or_none_witness:
  "get_installed_languages installation_en_es_fr =
     Inr (english_first (opennmt_languages [pkg_en_es, pkg_es_fr])) \<and>
   ''es'' \<in> set (codes (english_first (opennmt_languages [pkg_en_es, pkg_es_fr]))) \<and>
   ''en'' \<in> set (codes (english_first (opennmt_languages [pkg_en_es, pkg_es_fr]))) \<and>
   ''fr'' \<in> set (codes (english_first (opennmt_languages [pkg_en_es, pkg_es_fr]))) \<and>
   get_translation_from_codes installation_en_es_fr ''es'' ''en'' = Inr None \<and>
   get_translation_from_codes installation_en_es_fr ''en'' ''fr'' =
     Inr (Some (CompositeTranslation (PackageTranslation ''en'' ''es'' pkg_en_es)
        (PackageTranslation ''es'' ''fr'' pkg_es_fr)))"
proof -
  have c: "''es'' \<in> set (codes (english_first (opennmt_languages [pkg_en_es, pkg_es_fr])))"
    "''en'' \<in> set (codes (english_first (opennmt_languages [pkg_en_es, pkg_es_fr])))"
    "''fr'' \<in> set (codes (english_first (opennmt_languages [pkg_en_es, pkg_es_fr])))"
    by (simp_all add: codes_en_es_fr)
  show ?thesis
    using get_translation_from_codes_first_edge_or_none[OF installed_en_es_fr c(1) c(2)]
      get_translation_from_codes_first_edge_or_none[OF installed_en_es_fr c(2) c(3)] c
    by (simp add: installed_en_es_fr from_es_en_es_fr from_en_en_es_fr)
qed

text \<open>
  Claim C10. \<^verbatim>\<open>Language.get_translation(to)\<close> depends only on the code of its
  argument, so \<^verbatim>\<open>get_translation_from_codes\<close>, which takes the source language
  from one rebuild of the graph and the target language from another, returns an edge
  that only the two codes and the installed packages determine.

  Any two \<open>Language\<close> values with the same code select the same edge; and the result
  of \<^verbatim>\<open>get_translation_from_codes\<close> is what \<open>get_translation\<close> returns for the
  source language and any \<open>Language\<close> value that has the target code, whatever its
  name and its edge lists are.
\<close>

theorem get_translation_depends_on_target_code_only:
  "(code to1 = code to2 \<longrightarrow> get_translation self to1 = get_translation self to2) \<and>
   (get_installed_languages inst = Inr languages \<and> fcode \<in> set (codes languages) \<and>
    tcode \<in> set (codes languages) \<and> code other = tcode \<longrightarrow>
      get_translation_from_codes inst fcode tcode =
        Inr (get_translation (deref languages fcode) other))"
proof (intro conjI impI)
  assume "code to1 = code to2"
  then show "get_translation self to1 = get_translation self to2"
    by (simp add: get_translation_def)
next
  assume a: "get_installed_languages inst = Inr languages \<and> fcode \<in> set (codes languages) \<and>
    tcode \<in> set (codes languages) \<and> code other = tcode"
  then have "get_translation_from_codes inst fcode tcode =
      Inr (get_translation (deref languages fcode) (deref languages tcode))"
    by (intro get_translation_from_codes_eq) simp_all
  moreover have "get_translation (deref languages fcode) (deref languages tcode) =
      get_translation (deref languages fcode) other"
    using a by (simp add: get_translation_def)
  ultimately show "get_translation_from_codes inst fcode tcode =
      Inr (get_translation (deref languages fcode) other)"
    by simp
qed

theorem get_translation_depends_on_target_code_only_witness:
  "code (new_Language ''fr'' ''Francais'') =
     code (deref (english_first (opennmt_languages [pkg_en_es, pkg_es_fr])) ''fr'') \<and>
   get_translation (deref (english_first (opennmt_languages [pkg_en_es, pkg_es_fr])) ''en'')
       (new_Language ''fr'' ''Francais'') =
     get_translation (deref (english_first (opennmt_languages [pkg_en_es, pkg_es_fr])) ''en'')
       (deref (english_first (opennmt_languages [pkg_en_es, pkg_es_fr])) ''fr'') \<and>
   get_installed_languages installation_en_es_fr =
     Inr (english_first (opennmt_languages [pkg_en_es, pkg_es_fr])) \<and>
   ''en'' \<in> set (codes (english_first (opennmt_languages [pkg_en_es, pkg_es_fr]))) \<and>
   ''fr'' \<in> set (codes (english_first (opennmt_languages [pkg_en_es, pkg_es_fr]))) \<and>
   get_translation_from_codes installation_en_es_fr ''en'' ''fr'' =
     Inr (get_translation (deref (english_first (opennmt_languages [pkg_en_es, pkg_es_fr])) ''en'')
        (new_Language ''fr'' ''Francais''))"
proof -
  have c: "code (new_Language ''fr'' ''Francais'') =
     code (deref (english_first (opennmt_languages [pkg_en_es, pkg_es_fr])) ''fr'')"
    by (simp add: new_Language_def)
  have d: "''en'' \<in> set (codes (english_first (opennmt_languages [pkg_en_es, pkg_es_fr])))"
    "''fr'' \<in> set (codes (english_first (opennmt_languages [pkg_en_es, pkg_es_fr])))"
    by (simp_all add: codes_en_es_fr)
  have e: "code (new_Language ''fr'' ''Francais'') = ''fr''"
    by (simp add: new_Language_def)
  show ?thesis
    using get_translation_depends_on_target_code_only[of
        "new_Language ''fr'' ''Francais''"
        "deref (english_first (opennmt_languages [pkg_en_es, pkg_es_fr])) ''fr''"
        "deref (english_first (opennmt_languages [pkg_en_es, pkg_es_fr])) ''en''"
        installation_en_es_fr
        "english_first (opennmt_languages [pkg_en_es, pkg_es_fr])"
        "''en''" "''fr''" "new_Language ''fr'' ''Francais''"]
      c d e installed_en_es_fr
    by simp
qed

subsection \<open>The pivot loop\<close>

text \<open>
  Claim C3. The pivot loop of \<^verbatim>\<open>get_installed_languages\<close> terminates: a language
  gains at most one outgoing edge per destination (a composite is added only when
  \<^verbatim>\<open>get_translation\<close> for the destination is \<^verbatim>\<open>None\<close>), the set of languages is
  finite, and a full pass that adds no edge ends the \<^verbatim>\<open>while\<close> loop.

  The three loops of the pivot step are total functions: \<open>pivot_inner\<close> and
  \<open>pivot_for\<close>, which iterate over lists that grow under them, and \<open>pivot_while\<close>
  each have a termination proof, by the number \<open>missing s L\<close> of destination codes of
  the store that the language has no edge to; the loop over the languages is a fold
  over a list. For every store \<open>s\<close> and every language \<open>L\<close>:
  \<^item> the \<^verbatim>\<open>while\<close> loop returns within \<open>missing s L + 1\<close> passes;
  \<^item> a pass that leaves \<^verbatim>\<open>keep_adding_translations\<close> false has added nothing, and
    the loop returns the store as it was;
  \<^item> the edges the loop appends to the list of \<open>L\<close> have destinations that differ
    from each other and from the destinations of the edges the list had, so there are
    at most \<open>missing s L\<close> of them; the set of languages stays the same.
\<close>

theorem pivot_loop_terminates:
  "pivot_while_fuel (Suc (missing s L)) L s = Some (pivot_while L s) \<and>
   (\<not> snd (pivot_for L 0 (s, False)) \<longrightarrow> pivot_while L s = s) \<and>
   (\<exists>new. translations_from (deref (pivot_while L s) L) = translations_from (deref s L) @ new \<and>
      distinct (map to_lang new) \<and> to_lang ` set new \<inter> dests s L = {} \<and>
      length new \<le> missing s L) \<and>
   codes (pivot_while L s) = codes s"
proof (intro conjI)
  show "pivot_while_fuel (Suc (missing s L)) L s = Some (pivot_while L s)"
    using pivot_while_fuel_enough by blast
  show "\<not> snd (pivot_for L 0 (s, False)) \<longrightarrow> pivot_while L s = s"
    using pivot_while_unchanged by blast
  show "\<exists>new. translations_from (deref (pivot_while L s) L) = translations_from (deref s L) @ new \<and>
      distinct (map to_lang new) \<and> to_lang ` set new \<inter> dests s L = {} \<and>
      length new \<le> missing s L"
    using pivot_while_grows by (rule grows_bound)
  show "codes (pivot_while L s) = codes s"
    using pivot_while_grows by (rule grows_codes)
qed

theorem pivot_loop_terminates_witness:
  "\<not> snd (pivot_for ''en'' 0 (opennmt_languages [pkg_en_es, pkg_es_fr], False)) \<and>
   pivot_while ''en'' (opennmt_languages [pkg_en_es, pkg_es_fr]) =
     opennmt_languages [pkg_en_es, pkg_es_fr] \<and>
   pivot_while_fuel (Suc (missing (opennmt_languages [pkg_en_es, pkg_es_fr]) ''en'')) ''en''
       (opennmt_languages [pkg_en_es, pkg_es_fr]) =
     Some (opennmt_languages [pkg_en_es, pkg_es_fr])"
  using pivot_loop_terminates[of "opennmt_languages [pkg_en_es, pkg_es_fr]" "''en''"]
    pivot_fixpoint_en_es_fr
  by simp

subsection \<open>One edge per destination\<close>

text \<open>
  Claim C5. In every graph \<^verbatim>\<open>get_installed_languages\<close> returns, no two edges of a
  language's \<^verbatim>\<open>translations_from\<close> have the same pair of codes (from, to), for
  package edges, identity edges and composite edges alike.

  The builder tests for an existing edge only before it adds a composite edge. A package
  edge and an identity edge are appended without a test: two installed packages for the
  same pair of languages give two edges with the same pair, and a package from a
  language to itself gives a second edge next to the identity edge. With two packages
  from \<open>en\<close> to \<open>es\<close> the list of \<open>en\<close> holds the pair (\<open>en\<close>, \<open>es\<close>) twice.
\<close>

theorem duplicate_package_duplicate_edge_counterexample:
  "get_installed_languages installation_en_es_twice =
     Inr (english_first (opennmt_languages [pkg_en_es, pkg_en_es_2])) \<and>
   deref (english_first (opennmt_languages [pkg_en_es, pkg_en_es_2])) ''en''
     \<in> set (english_first (opennmt_languages [pkg_en_es, pkg_en_es_2])) \<and>
   map edge_pair (translations_from
       (deref (english_first (opennmt_languages [pkg_en_es, pkg_en_es_2])) ''en'')) =
     [(''en'', ''es''), (''en'', ''es''), (''en'', ''en'')]"
proof (intro conjI)
  show "get_installed_languages installation_en_es_twice =
     Inr (english_first (opennmt_languages [pkg_en_es, pkg_en_es_2]))"
    by (simp add: get_installed_languages_def installation_en_es_twice_def)
  show "deref (english_first (opennmt_languages [pkg_en_es, pkg_en_es_2])) ''en''
     \<in> set (english_first (opennmt_languages [pkg_en_es, pkg_en_es_2]))"
    by code_simp
  show "map edge_pair (translations_from
       (deref (english_first (opennmt_languages [pkg_en_es, pkg_en_es_2])) ''en'')) =
     [(''en'', ''es''), (''en'', ''es''), (''en'', ''en'')]"
    by code_simp
qed

text \<open>
  Claim C5, amended: when the model provider is OpenNMT, the installed translate
  packages have pairwise different pairs (\<^verbatim>\<open>from_code\<close>, \<^verbatim>\<open>to_code\<close>) and none of them
  has \<^verbatim>\<open>from_code\<close> equal to \<^verbatim>\<open>to_code\<close>, then no two edges of a language's
  \<^verbatim>\<open>translations_from\<close> have the same destination, hence none the same pair. For the
  other two providers it holds as the claim states it.
\<close>

theorem edge_pairs_unique_for_distinct_packages:
  assumes "get_installed_languages inst = Inr languages"
    and "model_provider inst = OPENNMT \<longrightarrow>
           distinct (map package_pair (translate_packages (installed_packages inst))) \<and>
           (\<forall>p \<in> set (translate_packages (installed_packages inst)). from_code p \<noteq> to_code p)"
    and "l \<in> set languages"
  shows "distinct (map to_lang (translations_from l)) \<and>
         distinct (map edge_pair (translations_from l))"
proof -
  have "distinct (map to_lang (translations_from l))"
  proof (cases "model_provider inst")
    case OPENNMT
    then have "languages = english_first (opennmt_languages (installed_packages inst))"
      using assms(1) by (simp add: get_installed_languages_def)
    then have "l \<in> set (opennmt_languages (installed_packages inst))"
      using assms(3) by simp
    then show ?thesis using assms(2) OPENNMT by (intro opennmt_pairs_unique) simp_all
  next
    case LIBRETRANSLATE
    then have "languages = []"
      using assms(1)
      by (simp add: get_installed_languages_def Let_def english_first_def split: if_splits)
    then show ?thesis using assms(3) by simp
  next
    case OPENAI
    then have "languages = english_first openai_languages"
      using assms(1) by (simp add: get_installed_languages_def)
    then show ?thesis using assms(3) openai_pairs_unique by (simp add: list_all_iff)
  qed
  then show ?thesis by (simp add: distinct_to_lang_edge_pair)
qed

theorem edge_pairs_unique_for_distinct_packages_witness:
  "get_installed_languages installation_en_es_fr =
     Inr (english_first (opennmt_languages [pkg_en_es, pkg_es_fr])) \<and>
   distinct (map package_pair (translate_packages (installed_packages installation_en_es_fr))) \<and>
   deref (english_first (opennmt_languages [pkg_en_es, pkg_es_fr])) ''en''
     \<in> set (english_first (opennmt_languages [pkg_en_es, pkg_es_fr])) \<and>
   distinct (map edge_pair (translations_from
     (deref (english_first (opennmt_languages [pkg_en_es, pkg_es_fr])) ''en'')))"
proof -
  have p: "installed_packages installation_en_es_fr = [pkg_en_es, pkg_es_fr]"
    by (simp add: installation_en_es_fr_def)
  have h: "model_provider installation_en_es_fr = OPENNMT \<longrightarrow>
      distinct (map package_pair (translate_packages (installed_packages installation_en_es_fr))) \<and>
      (\<forall>p \<in> set (translate_packages (installed_packages installation_en_es_fr)).
         from_code p \<noteq> to_code p)"
    unfolding p using distinct_pairs_en_es_fr by blast
  have m: "deref (english_first (opennmt_languages [pkg_en_es, pkg_es_fr])) ''en''
     \<in> set (english_first (opennmt_languages [pkg_en_es, pkg_es_fr]))"
    by (intro deref_in_set) (simp add: codes_en_es_fr)
  show ?thesis
    using edge_pairs_unique_for_distinct_packages[OF installed_en_es_fr h m]
      installed_en_es_fr m distinct_pairs_en_es_fr
    unfolding p by blast
qed

subsection \<open>Direct edges are never replaced\<close>

text \<open>
  Claim C6. For every pair of distinct languages with a discovered package edge between
  them, \<^verbatim>\<open>get_translation_from_codes\<close> on their codes returns that
  \<^verbatim>\<open>PackageTranslation\<close> edge itself, never an identity edge or a composite edge,
  also after the pivot step.

  When two translate packages are installed for the same pair of languages, each gives
  a package edge between them, and the lookup returns the first: the edge of the second
  package is a discovered package edge that is never returned.
\<close>

theorem second_package_edge_not_returned_counterexample:
  "pkg_en_es_2 \<in> set (installed_packages installation_en_es_twice) \<and>
   pkg_type pkg_en_es_2 = ''translate'' \<and>
   from_code pkg_en_es_2 = ''en'' \<and> to_code pkg_en_es_2 = ''es'' \<and>
   get_translation_from_codes installation_en_es_twice ''en'' ''es'' =
     Inr (Some (PackageTranslation ''en'' ''es'' pkg_en_es)) \<and>
   PackageTranslation ''en'' ''es'' pkg_en_es \<noteq> PackageTranslation ''en'' ''es'' pkg_en_es_2"
proof (intro conjI)
  show "get_translation_from_codes installation_en_es_twice ''en'' ''es'' =
     Inr (Some (PackageTranslation ''en'' ''es'' pkg_en_es))"
    by code_simp
qed (simp_all add: installation_en_es_twice_def pkg_en_es_2_def pkg_en_es_def)

text \<open>
  Claim C6, amended: under the OpenNMT provider, for every two codes \<open>f\<close> and \<open>t\<close>
  for which a translate package is installed, \<^verbatim>\<open>get_translation_from_codes\<close>
  returns the \<^verbatim>\<open>PackageTranslation\<close> edge of the first installed translate package
  from \<open>f\<close> to \<open>t\<close> (that package's edge itself when it is the only one), never an
  identity edge or a composite edge, also after the pivot step. The package edges of a
  language are the first edges of its list, in the order of the packages; it holds for
  \<open>f = t\<close> too.
\<close>

theorem direct_edge_is_returned:
  assumes "model_provider inst = OPENNMT"
    and "find (\<lambda>q. pkg_type q = ''translate'' \<and> from_code q = f \<and> to_code q = t)
           (installed_packages inst) = Some p"
  shows "get_translation_from_codes inst f t = Inr (Some (PackageTranslation f t p))"
proof -
  let ?P = "translate_packages (installed_packages inst)"
  let ?G = "opennmt_languages (installed_packages inst)"
  have fp: "find (\<lambda>q. from_code q = f \<and> to_code q = t) ?P = Some p"
    using assms(2) by (simp add: find_translate_packages)
  then have p: "p \<in> set ?P" "from_code p = f" "to_code p = t"
    by (auto simp: find_Some_iff)
  then have c: "f \<in> set (codes ?G)" "t \<in> set (codes ?G)"
    by (auto simp: set_codes_opennmt)
  from opennmt_edges[OF c(1)] obtain new where
    "translations_from (deref ?G f) = package_edges ?P f @ IdentityTranslation f # new"
    by (elim conjE exE)
  moreover have "find (\<lambda>x. to_lang x = t) (package_edges ?P f) = Some (PackageTranslation f t p)"
    using fp by (simp add: find_package_edges)
  ultimately have "find (\<lambda>x. to_lang x = t) (translations_from (deref ?G f)) =
      Some (PackageTranslation f t p)"
    by (simp add: find_append_Some)
  then show ?thesis using opennmt_lookup[OF assms(1) c] by simp
qed

theorem direct_edge_is_returned_witness:
  "model_provider installation_en_es_fr = OPENNMT \<and>
   find (\<lambda>q. pkg_type q = ''translate'' \<and> from_code q = ''es'' \<and> to_code q = ''fr'')
     (installed_packages installation_en_es_fr) = Some pkg_es_fr \<and>
   get_translation_from_codes installation_en_es_fr ''es'' ''fr'' =
     Inr (Some (PackageTranslation ''es'' ''fr'' pkg_es_fr))"
proof -
  have a: "model_provider installation_en_es_fr = OPENNMT"
    by (simp add: installation_en_es_fr_def)
  have b: "find (\<lambda>q. pkg_type q = ''translate'' \<and> from_code q = ''es'' \<and> to_code q = ''fr'')
     (installed_packages installation_en_es_fr) = Some pkg_es_fr"
    by (simp add: installation_en_es_fr_def pkg_en_es_def pkg_es_fr_def)
  show ?thesis using direct_edge_is_returned[OF a b] a b by simp
qed

subsection \<open>The edge from a language to itself\<close>

text \<open>
  Claim C7. For every language \<open>L\<close> of a graph built by \<^verbatim>\<open>get_installed_languages\<close>,
  \<^verbatim>\<open>L.get_translation(L)\<close> returns an edge, and for every string \<open>x\<close> and every
  \<open>n \<ge> 1\<close> its \<^verbatim>\<open>hypotheses(x, n)\<close> is \<open>n\<close> copies of \<^verbatim>\<open>Hypothesis(x, 0)\<close>, so
  its \<^verbatim>\<open>translate(x)\<close> is \<open>x\<close>.

  It fails in two ways.
  \<^item> Under the OpenNMT provider the identity edge is appended after the package edges,
    without a test. When a package from a language to itself is installed, its edge
    comes first in the list and \<^verbatim>\<open>get_translation\<close> returns it, not the identity
    edge: the hypotheses are the translator's. Here the package is from \<open>en\<close> to
    \<open>en\<close> and the translator returns \<open>y\<close> with score -1.
  \<^item> Under the OpenAI provider the builder adds no identity edge: the edge from a
    language to itself is a \<^verbatim>\<open>FewShotTranslation\<close>, whose hypotheses come from the
    language model (and, as the code is, are never returned: the method raises).
\<close>

theorem self_edge_not_identity_counterexample:
  "get_installed_languages installation_en_en =
     Inr (english_first (opennmt_languages [pkg_en_en])) \<and>
   deref (english_first (opennmt_languages [pkg_en_en])) ''en''
     \<in> set (english_first (opennmt_languages [pkg_en_en])) \<and>
   get_translation (deref (english_first (opennmt_languages [pkg_en_en])) ''en'')
       (deref (english_first (opennmt_languages [pkg_en_en])) ''en'') =
     Some (PackageTranslation ''en'' ''en'' pkg_en_en) \<and>
   hypotheses externals_y (english_first (opennmt_languages [pkg_en_en]))
       (PackageTranslation ''en'' ''en'' pkg_en_en) ''x'' 1 =
     Inr [\<lparr>hvalue = ''y'', score = -1\<rparr>] \<and>
   translate externals_y (english_first (opennmt_languages [pkg_en_en]))
       (PackageTranslation ''en'' ''en'' pkg_en_en) ''x'' = Inr ''y'' \<and>
   get_installed_languages installation_openai = Inr (english_first openai_languages) \<and>
   deref (english_first openai_languages) ''en'' \<in> set (english_first openai_languages) \<and>
   get_translation (deref (english_first openai_languages) ''en'')
       (deref (english_first openai_languages) ''en'') =
     Some (FewShotTranslation ''en'' ''en'') \<and>
   hypotheses externals_y (english_first openai_languages)
       (FewShotTranslation ''en'' ''en'') ''x'' 1 = Inl UnboundLocalError"
proof (intro conjI)
  show "get_installed_languages installation_en_en =
     Inr (english_first (opennmt_languages [pkg_en_en]))"
    by (simp add: get_installed_languages_def installation_en_en_def)
  show "deref (english_first (opennmt_languages [pkg_en_en])) ''en''
     \<in> set (english_first (opennmt_languages [pkg_en_en]))"
    by code_simp
  show "get_translation (deref (english_first (opennmt_languages [pkg_en_en])) ''en'')
       (deref (english_first (opennmt_languages [pkg_en_en])) ''en'') =
     Some (PackageTranslation ''en'' ''en'' pkg_en_en)"
    by code_simp
  show "hypotheses externals_y (english_first (opennmt_languages [pkg_en_en]))
       (PackageTranslation ''en'' ''en'' pkg_en_en) ''x'' 1 =
     Inr [\<lparr>hvalue = ''y'', score = -1\<rparr>]"
    by (rule hypotheses_en_en_y)
  show "translate externals_y (english_first (opennmt_languages [pkg_en_en]))
       (PackageTranslation ''en'' ''en'' pkg_en_en) ''x'' = Inr ''y''"
    using hypotheses_en_en_y[of "english_first (opennmt_languages [pkg_en_en])"]
    by (simp add: translate_def)
  show "get_installed_languages installation_openai = Inr (english_first openai_languages)"
    by (simp add: get_installed_languages_def installation_openai_def)
  show "deref (english_first openai_languages) ''en'' \<in> set (english_first openai_languages)"
    by code_simp
  show "get_translation (deref (english_first openai_languages) ''en'')
       (deref (english_first openai_languages) ''en'') =
     Some (FewShotTranslation ''en'' ''en'')"
    by code_simp
  show "hypotheses externals_y (english_first openai_languages)
       (FewShotTranslation ''en'' ''en'') ''x'' 1 = Inl UnboundLocalError"
    by (rule fewshot_en_en_y)
qed

text \<open>
  Claim C7, amended: for every language \<open>L\<close> of a graph built by
  \<^verbatim>\<open>get_installed_languages\<close>, whatever the provider, \<^verbatim>\<open>L.get_translation(L)\<close>
  returns an edge from \<open>L\<close> to \<open>L\<close>. Under the OpenAI provider that edge is
  \<^verbatim>\<open>FewShotTranslation(L, L)\<close>. Under any other provider, when no installed translate
  package has \<^verbatim>\<open>from_code\<close> equal to \<^verbatim>\<open>to_code\<close>, that edge is the identity edge of
  \<open>L\<close>, whose \<^verbatim>\<open>hypotheses(x, n)\<close> is \<open>n\<close> copies of \<^verbatim>\<open>Hypothesis(x, 0)\<close> for
  every \<open>x\<close> and \<open>n\<close>, and whose \<^verbatim>\<open>translate(x)\<close> is \<open>x\<close>.
\<close>

theorem self_translation_is_identity:
  assumes "get_installed_languages inst = Inr languages" and "L \<in> set languages"
  shows "(\<exists>e. get_translation L L = Some e \<and> from_lang e = code L \<and> to_lang e = code L) \<and>
    (model_provider inst = OPENAI \<longrightarrow>
       get_translation L L = Some (FewShotTranslation (code L) (code L))) \<and>
    (model_provider inst \<noteq> OPENAI \<and>
     (\<forall>p \<in> set (translate_packages (installed_packages inst)). from_code p \<noteq> to_code p) \<longrightarrow>
       get_translation L L = Some (IdentityTranslation (code L))) \<and>
    hypotheses ext g (IdentityTranslation (code L)) x n =
      Inr (replicate n \<lparr>hvalue = x, score = 0\<rparr>) \<and>
    translate ext g (IdentityTranslation (code L)) x = Inr x"
proof -
  let ?P = "translate_packages (installed_packages inst)"
  have ai: "get_translation L L = Some (FewShotTranslation (code L) (code L))"
    if "model_provider inst = OPENAI"
  proof -
    have "languages = english_first openai_languages"
      using openai_installed[OF that] assms(1) by simp
    then show ?thesis using assms(2) openai_self_edges by (simp add: list_all_iff)
  qed
  have nmt: "\<exists>new. translations_from L =
      package_edges ?P (code L) @ IdentityTranslation (code L) # new"
    and own: "\<forall>e \<in> set (translations_from L). from_lang e = code L"
    if "model_provider inst = OPENNMT"
  proof -
    note m = opennmt_member[OF that assms]
    from opennmt_edges[OF m(2)] obtain new where
      "translations_from L = package_edges ?P (code L) @ IdentityTranslation (code L) # new"
      unfolding m(3) by (elim conjE exE)
    then show "\<exists>new. translations_from L =
        package_edges ?P (code L) @ IdentityTranslation (code L) # new"
      by blast
    show "\<forall>e \<in> set (translations_from L). from_lang e = code L"
      using own_edges_opennmt[of _ "installed_packages inst" "code L"] unfolding m(3) by blast
  qed
  have lt: "model_provider inst \<noteq> LIBRETRANSLATE"
    using libretranslate_installed_empty[OF _ assms(1)] assms(2) by auto
  have 1: "\<exists>e. get_translation L L = Some e \<and> from_lang e = code L \<and> to_lang e = code L"
  proof (cases "model_provider inst")
    case OPENNMT
    from nmt[OF OPENNMT] obtain new where new:
      "translations_from L = package_edges ?P (code L) @ IdentityTranslation (code L) # new"
      by blast
    have "code L \<in> to_lang ` set (translations_from L)"
      unfolding new by simp
    then obtain e where e: "get_translation L L = Some e"
      using get_translation_None[of L L] by (cases "get_translation L L") simp_all
    then have "e \<in> set (translations_from L)" "to_lang e = code L"
      using get_translation_Some by blast+
    then show ?thesis using e own[OF OPENNMT] by blast
  next
    case LIBRETRANSLATE
    then show ?thesis using lt by simp
  next
    case OPENAI
    then show ?thesis using ai by simp
  qed
  have 3: "get_translation L L = Some (IdentityTranslation (code L))"
    if "model_provider inst \<noteq> OPENAI \<and> (\<forall>p \<in> set ?P. from_code p \<noteq> to_code p)"
  proof -
    have p: "model_provider inst = OPENNMT"
      using that lt by (cases "model_provider inst") simp_all
    from nmt[OF p] obtain new where new:
      "translations_from L = package_edges ?P (code L) @ IdentityTranslation (code L) # new"
      by blast
    have "code L \<notin> to_lang ` set (package_edges ?P (code L))"
      using that by (auto simp: to_lang_package_edges)
    then have "find (\<lambda>x. to_lang x = code L) (package_edges ?P (code L)) = None"
      unfolding find_None_iff by (metis imageI)
    then show ?thesis
      unfolding get_translation_find new by (simp add: find_append_None)
  qed
  have 4: "hypotheses ext g (IdentityTranslation (code L)) x n =
      Inr (replicate n \<lparr>hvalue = x, score = 0\<rparr>)"
    by (simp add: IdentityTranslation_hypotheses_replicate)
  have 5: "translate ext g (IdentityTranslation (code L)) x = Inr x"
    by (rule translate_Identity)
  show ?thesis using 1 ai 3 4 5 by blast
qed

theorem self_translation_is_identity_witness:
  "get_installed_languages installation_en_es_fr =
     Inr (english_first (opennmt_languages [pkg_en_es, pkg_es_fr])) \<and>
   deref (english_first (opennmt_languages [pkg_en_es, pkg_es_fr])) ''fr''
     \<in> set (english_first (opennmt_languages [pkg_en_es, pkg_es_fr])) \<and>
   model_provider installation_en_es_fr \<noteq> OPENAI \<and>
   get_translation (deref (english_first (opennmt_languages [pkg_en_es, pkg_es_fr])) ''fr'')
       (deref (english_first (opennmt_languages [pkg_en_es, pkg_es_fr])) ''fr'') =
     Some (IdentityTranslation ''fr'') \<and>
   hypotheses externals_y [] (IdentityTranslation ''fr'') ''hello'' 3 =
     Inr [\<lparr>hvalue = ''hello'', score = 0\<rparr>, \<lparr>hvalue = ''hello'', score = 0\<rparr>,
          \<lparr>hvalue = ''hello'', score = 0\<rparr>] \<and>
   translate externals_y [] (IdentityTranslation ''fr'') ''hello'' = Inr ''hello'' \<and>
   get_installed_languages installation_openai = Inr (english_first openai_languages) \<and>
   deref (english_first openai_languages) ''es'' \<in> set (english_first openai_languages) \<and>
   model_provider installation_openai = OPENAI \<and>
   get_translation (deref (english_first openai_languages) ''es'')
       (deref (english_first openai_languages) ''es'') =
     Some (FewShotTranslation ''es'' ''es'')"
proof -
  have a: "model_provider installation_en_es_fr \<noteq> OPENAI"
    by (simp add: installation_en_es_fr_def)
  have m: "deref (english_first (opennmt_languages [pkg_en_es, pkg_es_fr])) ''fr''
     \<in> set (english_first (opennmt_languages [pkg_en_es, pkg_es_fr]))"
    by (intro deref_in_set) (simp add: codes_en_es_fr)
  have p: "\<forall>p \<in> set (translate_packages (installed_packages installation_en_es_fr)).
      from_code p \<noteq> to_code p"
    using distinct_pairs_en_es_fr by (simp add: installation_en_es_fr_def)
  have b: "model_provider installation_openai = OPENAI"
    by (simp add: installation_openai_def)
  have i: "get_installed_languages installation_openai = Inr (english_first openai_languages)"
    using b by (rule openai_installed)
  have n: "deref (english_first openai_languages) ''es'' \<in> set (english_first openai_languages)"
    by (intro deref_in_set) (simp add: codes_openai)
  show ?thesis
    using self_translation_is_identity[OF installed_en_es_fr m, of externals_y "[]" "''hello''" 3]
      self_translation_is_identity[OF i n]
      a installed_en_es_fr m p b i n
    by (simp add: numeral_3_eq_3)
qed

subsection \<open>The pivot step connects what the packages connect\<close>

text \<open>
  Claim C2. After \<^verbatim>\<open>get_installed_languages\<close> with the OpenNMT provider, for every
  two languages \<open>L\<close> and \<open>N\<close> of the returned graph that a path of package edges and
  identity edges connects, \<^verbatim>\<open>L.get_translation(N)\<close> returns an edge from \<open>L\<close> to
  \<open>N\<close>.

  A path of package edges and identity edges from \<open>L\<close> to \<open>N\<close> is a pair of the
  reflexive and transitive closure of \<open>direct_edges\<close>.
\<close>

theorem connected_languages_have_an_edge:
  assumes "model_provider inst = OPENNMT" and "get_installed_languages inst = Inr languages"
    and "L \<in> set languages" and "N \<in> set languages"
    and "(code L, code N) \<in> (direct_edges (installed_packages inst))\<^sup>*"
  shows "\<exists>e. get_translation L N = Some e \<and> from_lang e = code L \<and> to_lang e = code N"
proof -
  note m = opennmt_member[OF assms(1,2,3)]
  have "code N \<in> dests (opennmt_languages (installed_packages inst)) (code L)"
    using m(2) assms(5) by (rule opennmt_reaches)
  then have "code N \<in> to_lang ` set (translations_from L)"
    unfolding dests_def m(3) .
  then obtain e where e: "get_translation L N = Some e"
    using get_translation_None[of L N] by (cases "get_translation L N") simp_all
  then have "e \<in> set (translations_from L)" "to_lang e = code N"
    using get_translation_Some by blast+
  moreover have "from_lang e = code L"
    using own_edges_opennmt[of e "installed_packages inst" "code L"] calculation(1)
    unfolding m(3) by simp
  ultimately show ?thesis using e by blast
qed

theorem connected_languages_have_an_edge_witness:
  "model_provider installation_en_es_fr = OPENNMT \<and>
   get_installed_languages installation_en_es_fr =
     Inr (english_first (opennmt_languages [pkg_en_es, pkg_es_fr])) \<and>
   deref (english_first (opennmt_languages [pkg_en_es, pkg_es_fr])) ''en''
     \<in> set (english_first (opennmt_languages [pkg_en_es, pkg_es_fr])) \<and>
   deref (english_first (opennmt_languages [pkg_en_es, pkg_es_fr])) ''fr''
     \<in> set (english_first (opennmt_languages [pkg_en_es, pkg_es_fr])) \<and>
   (''en'', ''fr'') \<in> (direct_edges (installed_packages installation_en_es_fr))\<^sup>* \<and>
   (\<exists>e. get_translation (deref (english_first (opennmt_languages [pkg_en_es, pkg_es_fr])) ''en'')
          (deref (english_first (opennmt_languages [pkg_en_es, pkg_es_fr])) ''fr'') = Some e \<and>
        from_lang e = ''en'' \<and> to_lang e = ''fr'')"
proof -
  have a: "model_provider installation_en_es_fr = OPENNMT"
    by (simp add: installation_en_es_fr_def)
  have m: "deref (english_first (opennmt_languages [pkg_en_es, pkg_es_fr])) ''en''
     \<in> set (english_first (opennmt_languages [pkg_en_es, pkg_es_fr]))"
    "deref (english_first (opennmt_languages [pkg_en_es, pkg_es_fr])) ''fr''
     \<in> set (english_first (opennmt_languages [pkg_en_es, pkg_es_fr]))"
    by (intro deref_in_set, simp add: codes_en_es_fr)+
  have p: "(code (deref (english_first (opennmt_languages [pkg_en_es, pkg_es_fr])) ''en''),
      code (deref (english_first (opennmt_languages [pkg_en_es, pkg_es_fr])) ''fr''))
     \<in> (direct_edges (installed_packages installation_en_es_fr))\<^sup>*"
    using path_en_fr by simp
  show ?thesis
    using connected_languages_have_an_edge[OF a installed_en_es_fr m p]
      a installed_en_es_fr m path_en_fr
    by simp
qed

end
